theory Spec2Isabelle
  imports Main
begin

section \<open>JavaScript values\<close>

text \<open>
  The values a property can hold.  Numbers are restricted to integers; \<open>JObservable c\<close> is
  the object returned by \<open>subject.asObservable()\<close> for the subject of closure \<open>c\<close>: it
  offers \<open>subscribe\<close> only.
\<close>

datatype jsval = Undefined | Null | JBool bool | JNum int | JStr string | JObservable nat

text \<open>\<open>v == null\<close>: true of \<open>null\<close> and \<open>undefined\<close> only.\<close>

fun nullish :: "jsval \<Rightarrow> bool" where
  "nullish Undefined = True"
| "nullish Null = True"
| "nullish _ = False"

text \<open>JavaScript's ToBoolean, as used by \<open>!validate(newValue, lastValue)\<close>.\<close>

fun truthy :: "jsval \<Rightarrow> bool" where
  "truthy Undefined = False"
| "truthy Null = False"
| "truthy (JBool b) = b"
| "truthy (JNum n) = (n \<noteq> 0)"
| "truthy (JStr s) = (s \<noteq> [])"
| "truthy (JObservable c) = True"

datatype error = TypeError

section \<open>The replay subject\<close>

text \<open>
  \<open>ReplaySubject\<close> is imported from the rxjs package (src/index.js, line 1); its source is
  not part of the repository.  The definitions of this section follow the rxjs 7
  implementation (\<open>ReplaySubject.ts\<close>, \<open>Subject.ts\<close>) for a subject with an infinite time
  window, which is the only way createEchoProp builds one:
  \<^item> the constructor stores \<open>Math.max(1, bufferSize)\<close>;
  \<^item> \<open>next\<close> pushes the value unless the subject is stopped, trims the buffer, and hands
    the value to every observer in the order they subscribed, unless stopped;
  \<^item> \<open>subscribe\<close> trims the buffer, registers the subscriber unless the subject is stopped,
    replays a copy of the buffer to it, and completes it if the subject is stopped;
  \<^item> \<open>complete\<close> stops the subject once and completes and removes every observer.
  The subject's \<open>error\<close> and \<open>unsubscribe\<close> are never called by the sources and cannot
  be reached through a handle, so \<open>hasError\<close> and \<open>closed\<close> stay false and are left out.

  A subscriber is identified by a number; what a callback sees is recorded as a delivery
  (subscriber, signal) appended to a chronological log.  In the definitions of this
  section, and in the setter and the runs built on them, a callback does nothing else: it
  neither assigns to the target nor throws.  The section on subscribers that write back
  gives the setter for callbacks that assign to the target.  Validators are functions of
  their two arguments, and the replay count is a natural number.
\<close>

datatype event = Next jsval | Complete

type_synonym delivery = "nat \<times> event"

record replay_subject =
  bufferSize :: nat
  buffer :: "jsval list"
  observers :: "nat list"
  isStopped :: bool

definition new_ReplaySubject :: "nat \<Rightarrow> replay_subject" where
  "new_ReplaySubject n =
     \<lparr>bufferSize = max 1 n, buffer = [], observers = [], isStopped = False\<rparr>"

definition trimBuffer :: "replay_subject \<Rightarrow> replay_subject" where
  "trimBuffer s =
     (if bufferSize s < length (buffer s)
      then s\<lparr>buffer := drop (length (buffer s) - bufferSize s) (buffer s)\<rparr>
      else s)"

definition ReplaySubject_next :: "replay_subject \<Rightarrow> jsval \<Rightarrow> replay_subject \<times> delivery list" where
  "ReplaySubject_next s v =
     (let s1 = (if \<not> isStopped s then s\<lparr>buffer := buffer s @ [v]\<rparr> else s);
          s2 = trimBuffer s1
      in (s2, if \<not> isStopped s2 then map (\<lambda>ob. (ob, Next v)) (observers s2) else []))"

definition ReplaySubject_subscribe :: "replay_subject \<Rightarrow> nat \<Rightarrow> replay_subject \<times> delivery list" where
  "ReplaySubject_subscribe s ob =
     (let s1 = trimBuffer s;
          s2 = (if isStopped s1 then s1 else s1\<lparr>observers := observers s1 @ [ob]\<rparr>)
      in (s2, map (\<lambda>v. (ob, Next v)) (buffer s2)
              @ (if isStopped s2 then [(ob, Complete)] else [])))"

definition Subject_complete :: "replay_subject \<Rightarrow> replay_subject \<times> delivery list" where
  "Subject_complete s =
     (if \<not> isStopped s
      then (s\<lparr>observers := [], isStopped := True\<rparr>, map (\<lambda>ob. (ob, Complete)) (observers s))
      else (s, []))"

text \<open>The teardown of the subscription returned by \<open>subscribe\<close>: \<open>arrRemove(observers, subscriber)\<close>.\<close>

definition Subscription_unsubscribe :: "replay_subject \<Rightarrow> nat \<Rightarrow> replay_subject" where
  "Subscription_unsubscribe s ob = s\<lparr>observers := remove1 ob (observers s)\<rparr>"

section \<open>Target object, closures and the world\<close>

type_synonym validator = "jsval \<Rightarrow> jsval \<Rightarrow> jsval"

text \<open>
  The variables one call of createEchoProp closes over: \<open>propertyName\<close>, \<open>validate\<close>
  (\<open>None\<close> is \<open>null\<close>), \<open>log\<close>, \<open>subject\<close> and the mutable \<open>lastValue\<close>.
\<close>

record closure =
  propertyName :: string
  validate :: "validator option"
  log :: bool
  subject :: replay_subject
  lastValue :: jsval

text \<open>
  An own property of the target is a data property (value, writable, configurable) or the
  accessor pair that createEchoProp defines, which refers to its closure.
\<close>

datatype property = DataProperty jsval bool bool | EchoAccessor nat

text \<open>
  The state: the target's own properties and extensibility, the store of closures with
  its allocation counter, the counter of subscribers, the log of deliveries and the
  warnings written to the console.
\<close>

record world =
  props :: "string \<rightharpoonup> property"
  extensible :: bool
  heap :: "nat \<Rightarrow> closure"
  nextCell :: nat
  nextSub :: nat
  deliveries :: "delivery list"
  console :: "string list"

text \<open>Run a subject operation on the subject of closure \<open>c\<close> and log what it delivered.\<close>

definition on_subject :: "world \<Rightarrow> nat \<Rightarrow> replay_subject \<times> delivery list \<Rightarrow> world" where
  "on_subject w c r =
     w\<lparr>heap := (heap w)(c := (heap w c)\<lparr>subject := fst r\<rparr>),
       deliveries := deliveries w @ snd r\<rparr>"

text \<open>\<open>subject.next(v)\<close> inside closure \<open>c\<close>.\<close>

definition emit :: "world \<Rightarrow> nat \<Rightarrow> jsval \<Rightarrow> world" where
  "emit w c v = on_subject w c (ReplaySubject_next (subject (heap w c)) v)"

text \<open>
  The call \<open>target.hasOwnProperty(k)\<close>.  The target is an ordinary object, so the method
  is the one of \<open>Object.prototype\<close> unless the target has an own field named
  \<open>hasOwnProperty\<close>; no value of \<open>jsval\<close> can be called, so the call is then a TypeError.
  \<open>hasOwnProperty\<close> is what the inherited method returns.  Then the read \<open>target[k]\<close> of
  an own property.
\<close>

definition hasOwnProperty_callable :: "world \<Rightarrow> bool" where
  "hasOwnProperty_callable w = (props w ''hasOwnProperty'' = None)"

definition hasOwnProperty :: "world \<Rightarrow> string \<Rightarrow> bool" where
  "hasOwnProperty w k = (props w k \<noteq> None)"

definition target_get :: "world \<Rightarrow> string \<Rightarrow> jsval" where
  "target_get w k =
     (case props w k of
        None \<Rightarrow> Undefined
      | Some (DataProperty v writable configurable) \<Rightarrow> v
      | Some (EchoAccessor c) \<Rightarrow> lastValue (heap w c))"

definition warning :: "string \<Rightarrow> string" where
  "warning n = ''Validation failed for property '' @ [CHR 0x27] @ n @ [CHR 0x27]
               @ ''. Keeping previous value.''"

text \<open>The \<open>set(newValue)\<close> half of the accessor pair of closure \<open>c\<close>.\<close>

definition setter :: "world \<Rightarrow> nat \<Rightarrow> jsval \<Rightarrow> world" where
  "setter w c newValue =
     (let cl = heap w c in
      if (case validate cl of None \<Rightarrow> False
                            | Some f \<Rightarrow> \<not> truthy (f newValue (lastValue cl)))
      then (if log cl then w\<lparr>console := console w @ [warning (propertyName cl)]\<rparr> else w)
      else emit (w\<lparr>heap := (heap w)(c := cl\<lparr>lastValue := newValue\<rparr>)\<rparr>) c newValue)"

text \<open>
  The assignment \<open>target[k] = v\<close> in strict mode (the sources are ES modules): an accessor
  runs its setter, a writable data property is overwritten, a missing property is created
  on an extensible target, and anything else is a TypeError.
\<close>

definition target_set :: "world \<Rightarrow> string \<Rightarrow> jsval \<Rightarrow> (error + unit) \<times> world" where
  "target_set w k v =
     (case props w k of
        Some (EchoAccessor c) \<Rightarrow> (Inr (), setter w c v)
      | Some (DataProperty old writable configurable) \<Rightarrow>
          if writable
          then (Inr (), w\<lparr>props := (props w)(k \<mapsto> DataProperty v writable configurable)\<rparr>)
          else (Inl TypeError, w)
      | None \<Rightarrow>
          if extensible w
          then (Inr (), w\<lparr>props := (props w)(k \<mapsto> DataProperty v True True)\<rparr>)
          else (Inl TypeError, w))"

text \<open>
  \<open>Object.defineProperty(target, k, {get, set, enumerable: true, configurable: true})\<close>
  with the accessor pair of closure \<open>c\<close>.
\<close>

definition defineProperty :: "world \<Rightarrow> string \<Rightarrow> nat \<Rightarrow> (error + unit) \<times> world" where
  "defineProperty w k c =
     (case props w k of
        Some (EchoAccessor c') \<Rightarrow> (Inr (), w\<lparr>props := (props w)(k \<mapsto> EchoAccessor c)\<rparr>)
      | Some (DataProperty old writable configurable) \<Rightarrow>
          if configurable
          then (Inr (), w\<lparr>props := (props w)(k \<mapsto> EchoAccessor c)\<rparr>)
          else (Inl TypeError, w)
      | None \<Rightarrow>
          if extensible w
          then (Inr (), w\<lparr>props := (props w)(k \<mapsto> EchoAccessor c)\<rparr>)
          else (Inl TypeError, w))"

section \<open>createEchoProp and createEchoProps\<close>

text \<open>The \<open>config\<close> argument; \<open>None\<close> is a key that is absent, so that its default applies.\<close>

record config =
  cfg_addAsObservableToTarget :: "bool option"
  cfg_replayCount :: "nat option"
  cfg_validate :: "validator option"
  cfg_log :: "bool option"
  cfg_useExistingValueAsInitial :: "bool option"

text \<open>
  The returned object: \<open>name\<close>, and \<open>value\<close>, \<open>subscribe\<close>, \<open>asObservable\<close> and
  \<open>complete\<close>, which all work on the closure \<open>cell\<close>.
\<close>

record handle =
  name :: string
  cell :: nat

text \<open>createEchoProp as in src/unnamed/part_002 (the version with \<open>useExistingValueAsInitial\<close>).\<close>

definition createEchoProp :: "world \<Rightarrow> string \<Rightarrow> jsval \<Rightarrow> config \<Rightarrow> (error + handle) \<times> world" where
  "createEchoProp w propName initialValue cfg =
     (let addAsObservableToTarget = (case cfg_addAsObservableToTarget cfg of None \<Rightarrow> True | Some b \<Rightarrow> b);
          replayCount = (case cfg_replayCount cfg of None \<Rightarrow> 1 | Some n \<Rightarrow> n);
          useExistingValueAsInitial = (case cfg_useExistingValueAsInitial cfg of None \<Rightarrow> True | Some b \<Rightarrow> b)
      in if useExistingValueAsInitial \<and> nullish initialValue \<and> \<not> hasOwnProperty_callable w
         then (Inl TypeError, w)
         else
          (let initialValue' =
                 (if useExistingValueAsInitial \<and> nullish initialValue \<and> hasOwnProperty w propName
                  then target_get w propName else initialValue);
               c = nextCell w;
               w1 = w\<lparr>heap := (heap w)(c :=
                         \<lparr>propertyName = propName,
                          validate = cfg_validate cfg,
                          log = (case cfg_log cfg of None \<Rightarrow> False | Some b \<Rightarrow> b),
                          subject = new_ReplaySubject replayCount,
                          lastValue = initialValue'\<rparr>),
                      nextCell := Suc c\<rparr>;
               w2 = (if \<not> nullish initialValue' then emit w1 c initialValue' else w1)
           in case defineProperty w2 propName c of
                (Inl e, w3) \<Rightarrow> (Inl e, w3)
              | (Inr u, w3) \<Rightarrow>
                  if addAsObservableToTarget
                  then (case target_set w3 (propName @ ''$'') (JObservable c) of
                          (Inl e, w4) \<Rightarrow> (Inl e, w4)
                        | (Inr u', w4) \<Rightarrow> (Inr \<lparr>name = propName, cell = c\<rparr>, w4))
                  else (Inr \<lparr>name = propName, cell = c\<rparr>, w3)))"

text \<open>
  createEchoProp as in src/index.js, an earlier copy of the same function: the same text
  without the \<open>useExistingValueAsInitial\<close> option and its adoption step.
\<close>

definition createEchoProp_index :: "world \<Rightarrow> string \<Rightarrow> jsval \<Rightarrow> config \<Rightarrow> (error + handle) \<times> world" where
  "createEchoProp_index w propName initialValue cfg =
     (let addAsObservableToTarget = (case cfg_addAsObservableToTarget cfg of None \<Rightarrow> True | Some b \<Rightarrow> b);
          replayCount = (case cfg_replayCount cfg of None \<Rightarrow> 1 | Some n \<Rightarrow> n);
          c = nextCell w;
          w1 = w\<lparr>heap := (heap w)(c :=
                    \<lparr>propertyName = propName,
                     validate = cfg_validate cfg,
                     log = (case cfg_log cfg of None \<Rightarrow> False | Some b \<Rightarrow> b),
                     subject = new_ReplaySubject replayCount,
                     lastValue = initialValue\<rparr>),
                 nextCell := Suc c\<rparr>;
          w2 = (if \<not> nullish initialValue then emit w1 c initialValue else w1)
      in case defineProperty w2 propName c of
           (Inl e, w3) \<Rightarrow> (Inl e, w3)
         | (Inr u, w3) \<Rightarrow>
             if addAsObservableToTarget
             then (case target_set w3 (propName @ ''$'') (JObservable c) of
                     (Inl e, w4) \<Rightarrow> (Inl e, w4)
                   | (Inr u', w4) \<Rightarrow> (Inr \<lparr>name = propName, cell = c\<rparr>, w4))
             else (Inr \<lparr>name = propName, cell = c\<rparr>, w3))"

text \<open>
  createEchoProps: \<open>Object.entries(propertyBook).map(...)\<close>.  The argument is the list
  of entries of the property book, which JavaScript takes before the first call; a call
  that throws ends the whole map.
\<close>

fun createEchoProps :: "world \<Rightarrow> (string \<times> jsval) list \<Rightarrow> config \<Rightarrow> (error + handle list) \<times> world" where
  "createEchoProps w [] cfg = (Inr [], w)"
| "createEchoProps w ((propName, propDefault) # rest) cfg =
     (case createEchoProp w propName propDefault cfg of
        (Inl e, w1) \<Rightarrow> (Inl e, w1)
      | (Inr h, w1) \<Rightarrow>
          (case createEchoProps w1 rest cfg of
             (Inl e, w2) \<Rightarrow> (Inl e, w2)
           | (Inr hs, w2) \<Rightarrow> (Inr (h # hs), w2)))"

section \<open>The operations of a handle\<close>

text \<open>\<open>handle.value\<close>: the getter returns \<open>lastValue\<close>.\<close>

definition handle_value :: "world \<Rightarrow> handle \<Rightarrow> jsval" where
  "handle_value w h = lastValue (heap w (cell h))"

text \<open>
  \<open>subject.subscribe(callback)\<close> on the subject of closure \<open>c\<close>, which is also what
  subscribing to \<open>subject.asObservable()\<close> does: a new subscriber is made, and its number
  is returned in place of the subscription.
\<close>

definition subscribe :: "world \<Rightarrow> nat \<Rightarrow> nat \<times> world" where
  "subscribe w c =
     (let ob = nextSub w
      in (ob, on_subject (w\<lparr>nextSub := Suc ob\<rparr>) c (ReplaySubject_subscribe (subject (heap w c)) ob)))"

definition handle_subscribe :: "world \<Rightarrow> handle \<Rightarrow> nat \<times> world" where
  "handle_subscribe w h = subscribe w (cell h)"

definition handle_asObservable :: "handle \<Rightarrow> jsval" where
  "handle_asObservable h = JObservable (cell h)"

definition handle_complete :: "world \<Rightarrow> handle \<Rightarrow> world" where
  "handle_complete w h = on_subject w (cell h) (Subject_complete (subject (heap w (cell h))))"

text \<open>\<open>subscription.unsubscribe()\<close> for subscriber \<open>ob\<close> of the subject of closure \<open>c\<close>.\<close>

definition unsubscribe :: "world \<Rightarrow> nat \<Rightarrow> nat \<Rightarrow> world" where
  "unsubscribe w c ob =
     w\<lparr>heap := (heap w)(c := (heap w c)\<lparr>subject := Subscription_unsubscribe (subject (heap w c)) ob\<rparr>)\<rparr>"

section \<open>What a caller can do, and runs of it\<close>

datatype action =
    Assign string jsval
  | Subscribe nat
  | Unsubscribe nat nat
  | Terminate nat
  | Create string jsval config

fun step :: "action \<Rightarrow> world \<Rightarrow> world" where
  "step (Assign k v) w = snd (target_set w k v)"
| "step (Subscribe c) w = snd (subscribe w c)"
| "step (Unsubscribe c ob) w = unsubscribe w c ob"
| "step (Terminate c) w = handle_complete w \<lparr>name = propertyName (heap w c), cell = c\<rparr>"
| "step (Create k v cfg) w = snd (createEchoProp w k v cfg)"

definition run :: "action list \<Rightarrow> world \<Rightarrow> world" where
  "run as w = fold step as w"

text \<open>A target \<open>{}\<close> on which nothing has been created yet.\<close>

definition blank :: closure where
  "blank = \<lparr>propertyName = [], validate = None, log = False,
            subject = new_ReplaySubject 1, lastValue = Undefined\<rparr>"

definition empty_world :: world where
  "empty_world = \<lparr>props = Map.empty, extensible = True, heap = (\<lambda>c. blank),
                  nextCell = 0, nextSub = 0, deliveries = [], console = []\<rparr>"

definition no_config :: config where
  "no_config = \<lparr>cfg_addAsObservableToTarget = None, cfg_replayCount = None,
                cfg_validate = None, cfg_log = None, cfg_useExistingValueAsInitial = None\<rparr>"

section \<open>Notions of the specification\<close>

text \<open>Every accessor on the target belongs to a closure that has been allocated.\<close>

definition accessors_allocated :: "world \<Rightarrow> bool" where
  "accessors_allocated w = (\<forall>k c. props w k = Some (EchoAccessor c) \<longrightarrow> c < nextCell w)"

text \<open>\<open>validate && !validate(newValue, lastValue)\<close>: the write is rejected.\<close>

definition rejected :: "closure \<Rightarrow> jsval \<Rightarrow> bool" where
  "rejected cl newValue =
     (case validate cl of None \<Rightarrow> False | Some f \<Rightarrow> \<not> truthy (f newValue (lastValue cl)))"

text \<open>The \<open>n\<close> most recent entries of a list, oldest first.\<close>

definition lastn :: "nat \<Rightarrow> 'a list \<Rightarrow> 'a list" where
  "lastn n xs = drop (length xs - n) xs"

text \<open>
  The values that a property accepts out of a sequence of attempted writes, given its
  validator and its current value.
\<close>

fun accepted_writes :: "validator option \<Rightarrow> jsval \<Rightarrow> jsval list \<Rightarrow> jsval list" where
  "accepted_writes vd cur [] = []"
| "accepted_writes vd cur (v # vs) =
     (if (case vd of None \<Rightarrow> False | Some f \<Rightarrow> \<not> truthy (f v cur))
      then accepted_writes vd cur vs
      else v # accepted_writes vd v vs)"

text \<open>
  The call \<open>target.hasOwnProperty(propertyName)\<close> of line 28 of src/unnamed/part_002 is
  reached and throws.
\<close>

definition adoption_throws :: "world \<Rightarrow> jsval \<Rightarrow> config \<Rightarrow> bool" where
  "adoption_throws w initialValue cfg =
     ((case cfg_useExistingValueAsInitial cfg of None \<Rightarrow> True | Some b \<Rightarrow> b)
      \<and> nullish initialValue \<and> \<not> hasOwnProperty_callable w)"

text \<open>An action other than the completion of the subject of closure \<open>c\<close>.\<close>

fun live_action :: "nat \<Rightarrow> action \<Rightarrow> bool" where
  "live_action c (Terminate c') = (c' \<noteq> c)"
| "live_action c a = True"

text \<open>\<open>Object.defineProperty(target, k, ...)\<close> with an accessor pair succeeds.\<close>

definition definable :: "world \<Rightarrow> string \<Rightarrow> bool" where
  "definable w k =
     (case props w k of
        None \<Rightarrow> extensible w
      | Some (DataProperty v writable configurable) \<Rightarrow> configurable
      | Some (EchoAccessor c) \<Rightarrow> True)"

text \<open>
  The values that an action, and a run of actions, assigns through the accessor of closure
  \<open>c\<close>, in order: the values that the caller assigns to a field bound to that accessor, and
  the observable that createEchoProp assigns to \<open>name + "$"\<close> when that field is bound to it.
\<close>

fun attempt :: "world \<Rightarrow> nat \<Rightarrow> action \<Rightarrow> jsval list" where
  "attempt w c (Assign k v) = (if props w k = Some (EchoAccessor c) then [v] else [])"
| "attempt w c (Create k v cfg) =
     (if \<not> adoption_throws w v cfg \<and> definable w k
         \<and> cfg_addAsObservableToTarget cfg \<noteq> Some False
         \<and> props w (k @ ''$'') = Some (EchoAccessor c)
      then [JObservable (nextCell w)] else [])"
| "attempt w c a = []"

fun attempts :: "world \<Rightarrow> nat \<Rightarrow> action list \<Rightarrow> jsval list" where
  "attempts w c [] = []"
| "attempts w c (a # as) = attempt w c a @ attempts (step a w) c as"

text \<open>
  The subscribers of every allocated closure have been numbered already, and no subscriber
  is registered with two closures.
\<close>

definition subscribers_separate :: "world \<Rightarrow> bool" where
  "subscribers_separate w =
     ((\<forall>c<nextCell w. \<forall>ob\<in>set (observers (subject (heap w c))). ob < nextSub w)
      \<and> (\<forall>c<nextCell w. \<forall>c'<nextCell w. c \<noteq> c' \<longrightarrow>
            set (observers (subject (heap w c))) \<inter> set (observers (subject (heap w c'))) = {}))"

text \<open>
  createReactiveProperties as section 4.2 of the specification words it: for each
  (name, initialValue) pair of the mapping, in its iteration order, invoke the creation of
  one property with the shared options, and return the handles in the same order.  An
  invocation that fails ends the whole call.
\<close>

definition spec_invoke :: "config \<Rightarrow> (error + handle list) \<times> world \<Rightarrow> string \<times> jsval
    \<Rightarrow> (error + handle list) \<times> world" where
  "spec_invoke options acc pair =
     (case fst acc of
        Inl e \<Rightarrow> acc
      | Inr handles \<Rightarrow>
          (case createEchoProp (snd acc) (fst pair) (snd pair) options of
             (Inl e, w') \<Rightarrow> (Inl e, w')
           | (Inr h, w') \<Rightarrow> (Inr (handles @ [h]), w')))"

definition spec_createReactiveProperties :: "world \<Rightarrow> (string \<times> jsval) list \<Rightarrow> config
    \<Rightarrow> (error + handle list) \<times> world" where
  "spec_createReactiveProperties w mapping options =
     foldl (spec_invoke options) (Inr [], w) mapping"

section \<open>Auxiliary notions for the proofs\<close>

text \<open>
  What the setter of a closure does to that closure and what it delivers, as functions of
  the closure alone.
\<close>

definition write_cell :: "closure \<Rightarrow> jsval \<Rightarrow> closure" where
  "write_cell cl v =
     (if rejected cl v then cl
      else cl\<lparr>lastValue := v, subject := fst (ReplaySubject_next (subject cl) v)\<rparr>)"

definition write_deliveries :: "closure \<Rightarrow> jsval \<Rightarrow> delivery list" where
  "write_deliveries cl v =
     (if rejected cl v then [] else snd (ReplaySubject_next (subject cl) v))"

text \<open>
  The initial value that createEchoProp works with after lines 27 to 30 of
  src/unnamed/part_002: the explicit one, or the adopted one.
\<close>

definition seed_value :: "world \<Rightarrow> string \<Rightarrow> jsval \<Rightarrow> config \<Rightarrow> jsval" where
  "seed_value w propName initialValue cfg =
     (if (case cfg_useExistingValueAsInitial cfg of None \<Rightarrow> True | Some b \<Rightarrow> b)
         \<and> nullish initialValue \<and> hasOwnProperty w propName
      then target_get w propName else initialValue)"

text \<open>The closure of a new property once \<open>subject.next(initialValue)\<close> has run.\<close>

definition fresh_closure :: "string \<Rightarrow> jsval \<Rightarrow> config \<Rightarrow> closure" where
  "fresh_closure propName v cfg =
     \<lparr>propertyName = propName,
      validate = cfg_validate cfg,
      log = (case cfg_log cfg of None \<Rightarrow> False | Some b \<Rightarrow> b),
      subject = \<lparr>bufferSize = max 1 (case cfg_replayCount cfg of None \<Rightarrow> 1 | Some n \<Rightarrow> n),
                 buffer = (if nullish v then [] else [v]),
                 observers = [], isStopped = False\<rparr>,
      lastValue = v\<rparr>"

text \<open>The world with the new closure stored, and then with the accessor defined.\<close>

definition allocated :: "world \<Rightarrow> string \<Rightarrow> jsval \<Rightarrow> config \<Rightarrow> world" where
  "allocated w propName initialValue cfg =
     w\<lparr>heap := (heap w)(nextCell w := fresh_closure propName (seed_value w propName initialValue cfg) cfg),
       nextCell := Suc (nextCell w)\<rparr>"

definition defined :: "world \<Rightarrow> string \<Rightarrow> jsval \<Rightarrow> config \<Rightarrow> world" where
  "defined w propName initialValue cfg =
     snd (defineProperty (allocated w propName initialValue cfg) propName (nextCell w))"

text \<open>
  A closure whose subject is stopped, with buffer size \<open>n\<close> and \<open>B\<close> as the part of the
  buffer that a replay shows.
\<close>

definition stopped_with :: "nat \<Rightarrow> jsval list \<Rightarrow> closure \<Rightarrow> bool" where
  "stopped_with n B cl =
     (isStopped (subject cl) \<and> bufferSize (subject cl) = n
      \<and> lastn n (buffer (subject cl)) = B)"

text \<open>
  A closure whose subject is live, with buffer size \<open>n\<close>, validator \<open>vd\<close> and a buffer
  within its size.
\<close>

definition live_with :: "nat \<Rightarrow> validator option \<Rightarrow> closure \<Rightarrow> bool" where
  "live_with n vd cl =
     (\<not> isStopped (subject cl) \<and> bufferSize (subject cl) = n \<and> validate cl = vd
      \<and> length (buffer (subject cl)) \<le> n)"

section \<open>Subscribers that write back\<close>

text \<open>
  \<open>subject.next(newValue)\<close>, the last statement of the setter, calls the callback of every
  registered subscriber before it returns, and a callback is the caller's code: it can
  assign to the target, and so run a setter again, before the write that notified it has
  returned.  The definitions above record what a callback is handed and stop there; they
  are the calls in which no callback assigns to the target.  This section gives the
  setter with callbacks that do.

  A callback is represented by the assignments \<open>target[k] = x\<close> that it performs, in
  order, when its subscriber is handed a value; the callback that only looks at the value
  performs none.  An assignment that throws ends the callback (rxjs reports the error
  outside the call), and the next subscriber is served.  As in rxjs, \<open>next\<close> hands the
  value to the observers that were registered when it was called.

  A callback that writes whenever it is notified never lets the first write return, so the
  setter takes fuel: one unit for every setter that is running, and \<open>None\<close> when it has run
  out.  \<open>run_callback\<close> and \<open>deliver\<close> take the setter that the remaining fuel allows.
\<close>

type_synonym callbacks = "nat \<Rightarrow> jsval \<Rightarrow> (string \<times> jsval) list"

fun run_callback :: "(world \<Rightarrow> nat \<Rightarrow> jsval \<Rightarrow> world option) \<Rightarrow> world
    \<Rightarrow> (string \<times> jsval) list \<Rightarrow> world option" where
  "run_callback inner w [] = Some w"
| "run_callback inner w ((k, x) # rest) =
     (case props w k of
        Some (EchoAccessor c) \<Rightarrow>
          (case inner w c x of
             None \<Rightarrow> None
           | Some w' \<Rightarrow> run_callback inner w' rest)
      | Some (DataProperty old writable configurable) \<Rightarrow>
          if writable
          then run_callback inner
                 (w\<lparr>props := (props w)(k \<mapsto> DataProperty x writable configurable)\<rparr>) rest
          else Some w
      | None \<Rightarrow>
          if extensible w
          then run_callback inner (w\<lparr>props := (props w)(k \<mapsto> DataProperty x True True)\<rparr>) rest
          else Some w)"

fun deliver :: "(world \<Rightarrow> nat \<Rightarrow> jsval \<Rightarrow> world option) \<Rightarrow> callbacks \<Rightarrow> world
    \<Rightarrow> nat list \<Rightarrow> jsval \<Rightarrow> world option" where
  "deliver inner cbs w [] v = Some w"
| "deliver inner cbs w (ob # obs) v =
     (case run_callback inner (w\<lparr>deliveries := deliveries w @ [(ob, Next v)]\<rparr>) (cbs ob v) of
        None \<Rightarrow> None
      | Some w' \<Rightarrow> deliver inner cbs w' obs v)"

text \<open>
  The setter of closure \<open>c\<close>: the validation, \<open>lastValue = newValue\<close>, and
  \<open>subject.next(newValue)\<close> with its push, its trim and the calls of the callbacks.
\<close>

fun setter_reentrant :: "nat \<Rightarrow> callbacks \<Rightarrow> world \<Rightarrow> nat \<Rightarrow> jsval \<Rightarrow> world option" where
  "setter_reentrant 0 cbs w c newValue = None"
| "setter_reentrant (Suc fuel) cbs w c newValue =
     (let cl = heap w c in
      if (case validate cl of None \<Rightarrow> False
                            | Some f \<Rightarrow> \<not> truthy (f newValue (lastValue cl)))
      then Some (if log cl then w\<lparr>console := console w @ [warning (propertyName cl)]\<rparr> else w)
      else
       (let s = subject cl;
            s1 = (if \<not> isStopped s then s\<lparr>buffer := buffer s @ [newValue]\<rparr> else s);
            s2 = trimBuffer s1;
            w1 = w\<lparr>heap := (heap w)(c := cl\<lparr>lastValue := newValue, subject := s2\<rparr>)\<rparr>
        in if \<not> isStopped s2
           then deliver (setter_reentrant fuel cbs) cbs w1 (observers s2) newValue
           else Some w1))"

text \<open>The assignment \<open>target[k] = v\<close> by the caller, with these callbacks registered.\<close>

definition target_set_reentrant :: "nat \<Rightarrow> callbacks \<Rightarrow> world \<Rightarrow> string \<Rightarrow> jsval
    \<Rightarrow> ((error + unit) \<times> world) option" where
  "target_set_reentrant fuel cbs w k v =
     (case props w k of
        Some (EchoAccessor c) \<Rightarrow>
          (case setter_reentrant fuel cbs w c v of
             None \<Rightarrow> None
           | Some w' \<Rightarrow> Some (Inr (), w'))
      | Some (DataProperty old writable configurable) \<Rightarrow> Some (target_set w k v)
      | None \<Rightarrow> Some (target_set w k v))"


section \<open>Example worlds\<close>

text \<open>
  A validator that accepts the numbers from 5 on and nothing else:
  \<open>(newValue) => typeof newValue === 'number' && newValue >= 5\<close>.  (The validator
  \<open>(newValue) => newValue >= 5\<close> of src/test.js also accepts what \<open>>=\<close> converts to such a
  number, the string \<open>'10'\<close> for one.)
\<close>

definition at_least_five :: validator where
  "at_least_five n old = JBool (case n of JNum i \<Rightarrow> 5 \<le> i | _ \<Rightarrow> False)"

definition five_config :: config where
  "five_config = no_config\<lparr>cfg_validate := Some at_least_five, cfg_log := Some True\<rparr>"

text \<open>\<open>createEchoProp({}, 'value', 5, {validate, log: true})\<close>.\<close>

definition five_world :: world where
  "five_world = snd (createEchoProp empty_world ''value'' (JNum 5) five_config)"

definition value_handle :: handle where
  "value_handle = \<lparr>name = ''value'', cell = 0\<rparr>"

text \<open>The same with a subscriber.\<close>

definition five_watched :: world where
  "five_watched = snd (handle_subscribe five_world value_handle)"

text \<open>
  \<open>createEchoProp({}, 'value', 1)\<close>, then one subscriber, then \<open>complete()\<close>; or, in place
  of \<open>complete()\<close>, a second subscriber.
\<close>

definition plain_world :: world where
  "plain_world = snd (createEchoProp empty_world ''value'' (JNum 1) no_config)"

definition watched_world :: world where
  "watched_world = snd (handle_subscribe plain_world value_handle)"

definition completed_world :: world where
  "completed_world = handle_complete watched_world value_handle"

definition pair_world :: world where
  "pair_world = snd (handle_subscribe watched_world value_handle)"

text \<open>
  The callbacks of \<open>handle.subscribe(v => { if (v === 7) target.value = 8 })\<close> as
  subscriber 0 and of subscribers that only look at the value for the others.
\<close>

definition write_back :: callbacks where
  "write_back ob v = (if ob = 0 \<and> v = JNum 7 then [(''value'', JNum 8)] else [])"


text \<open>\<open>createEchoProp({}, 'value', 5, {replayCount: 0})\<close> and, from src/test.js,
  \<open>createEchoProp({}, 'value', 1, {replayCount: 2})\<close>.\<close>

definition zero_config :: config where
  "zero_config = no_config\<lparr>cfg_replayCount := Some 0\<rparr>"

definition zero_world :: world where
  "zero_world = snd (createEchoProp empty_world ''value'' (JNum 5) zero_config)"

definition two_config :: config where
  "two_config = no_config\<lparr>cfg_replayCount := Some 2\<rparr>"

definition two_world :: world where
  "two_world = snd (createEchoProp empty_world ''value'' (JNum 1) two_config)"

text \<open>One write, a subscriber, another property, and two more writes.\<close>

definition busy_run :: "action list" where
  "busy_run = [Assign ''value'' (JNum 2), Subscribe 0, Create ''other'' (JNum 0) no_config,
               Assign ''value'' (JNum 3), Assign ''value'' (JNum 4)]"

text \<open>
  The targets \<open>{existingProp: 42}\<close> of src/test.js and \<open>{existingProp: null}\<close>, and
  \<open>createEchoProp(target, 'existingProp', null)\<close> on each (with \<open>undefined\<close> on the second),
  by the createEchoProp of src/unnamed/part_002; then the same call on the first target by
  the createEchoProp of src/index.js.
\<close>

definition answer_target :: world where
  "answer_target = empty_world\<lparr>props := [''existingProp'' \<mapsto> DataProperty (JNum 42) True True]\<rparr>"

definition null_target :: world where
  "null_target = empty_world\<lparr>props := [''existingProp'' \<mapsto> DataProperty Null True True]\<rparr>"

definition existing_handle :: handle where
  "existing_handle = \<lparr>name = ''existingProp'', cell = 0\<rparr>"

definition answer_world :: world where
  "answer_world = snd (createEchoProp answer_target ''existingProp'' Null no_config)"

definition null_world :: world where
  "null_world = snd (createEchoProp null_target ''existingProp'' Undefined no_config)"

definition unadopted_world :: world where
  "unadopted_world = snd (createEchoProp_index answer_target ''existingProp'' Null no_config)"

text \<open>A validator that rejects every value.\<close>

definition reject_all :: validator where
  "reject_all n old = JBool False"

definition strict_config :: config where
  "strict_config = no_config\<lparr>cfg_validate := Some reject_all\<rparr>"

definition strict_world :: world where
  "strict_world = snd (createEchoProp empty_world ''value'' (JNum 5) strict_config)"

text \<open>\<open>createEchoProps({}, {score: 0, health: 100})\<close> of src/test.js.\<close>

definition game_book :: "(string \<times> jsval) list" where
  "game_book = [(''score'', JNum 0), (''health'', JNum 100)]"

definition score_handle :: handle where
  "score_handle = \<lparr>name = ''score'', cell = 0\<rparr>"

definition health_handle :: handle where
  "health_handle = \<lparr>name = ''health'', cell = 1\<rparr>"

definition game_world :: world where
  "game_world = snd (createEchoProps empty_world game_book no_config)"

section \<open>Basic facts\<close>

lemma setter_rejected:
  "rejected (heap w c) v \<Longrightarrow>
   setter w c v = (if log (heap w c) then w\<lparr>console := console w @ [warning (propertyName (heap w c))]\<rparr> else w)"
  by (simp add: setter_def rejected_def Let_def)

lemma target_set_accessor:
  "props w k = Some (EchoAccessor c) \<Longrightarrow> target_set w k v = (Inr (), setter w c v)"
  by (simp add: target_set_def)

subsection \<open>lastn\<close>

lemma lastn_length: "length (lastn n xs) = min n (length xs)"
  by (simp add: lastn_def)

lemma lastn_lastn_append: "lastn n (lastn n xs @ ys) = lastn n (xs @ ys)"
proof (cases "length xs \<le> n")
  case True
  then show ?thesis by (simp add: lastn_def)
next
  case False
  then have "length xs + length ys - (length xs - n + n) + (length xs - n) = length xs + length ys - n"
    by arith
  then show ?thesis by (simp add: lastn_def)
qed

lemma lastn_all: "length xs \<le> n \<Longrightarrow> lastn n xs = xs"
  by (simp add: lastn_def)


subsection \<open>The subject\<close>

lemma trimBuffer_eq: "trimBuffer s = s\<lparr>buffer := lastn (bufferSize s) (buffer s)\<rparr>"
  by (simp add: trimBuffer_def lastn_def)

lemma next_subject:
  "fst (ReplaySubject_next s v) =
     (if isStopped s then s\<lparr>buffer := lastn (bufferSize s) (buffer s)\<rparr>
      else s\<lparr>buffer := lastn (bufferSize s) (buffer s @ [v])\<rparr>)"
  by (simp add: ReplaySubject_next_def Let_def trimBuffer_eq)

lemma next_deliveries:
  "snd (ReplaySubject_next s v) = (if isStopped s then [] else map (\<lambda>ob. (ob, Next v)) (observers s))"
  by (simp add: ReplaySubject_next_def Let_def trimBuffer_eq)

lemma setter_heap: "heap (setter w c v) = (heap w)(c := write_cell (heap w c) v)"
  by (auto simp: setter_def Let_def write_cell_def rejected_def emit_def on_subject_def fun_eq_iff
      split: option.splits)

lemma setter_deliveries: "deliveries (setter w c v) = deliveries w @ write_deliveries (heap w c) v"
  by (auto simp: setter_def Let_def write_deliveries_def rejected_def emit_def on_subject_def
      split: option.splits)

lemma setter_frame [simp]:
  "props (setter w c v) = props w"
  "extensible (setter w c v) = extensible w"
  "nextCell (setter w c v) = nextCell w"
  "nextSub (setter w c v) = nextSub w"
  by (auto simp: setter_def Let_def emit_def on_subject_def split: option.splits)

lemma target_set_heap:
  "heap (snd (target_set w k v)) =
     (case props w k of Some (EchoAccessor c) \<Rightarrow> (heap w)(c := write_cell (heap w c) v) | _ \<Rightarrow> heap w)"
  by (auto simp: target_set_def setter_heap split: option.splits property.splits)

lemma target_set_deliveries:
  "deliveries (snd (target_set w k v)) =
     (case props w k of Some (EchoAccessor c) \<Rightarrow> deliveries w @ write_deliveries (heap w c) v | _ \<Rightarrow> deliveries w)"
  by (auto simp: target_set_def setter_deliveries split: option.splits property.splits)

lemma target_set_counters [simp]:
  "nextCell (snd (target_set w k v)) = nextCell w"
  "nextSub (snd (target_set w k v)) = nextSub w"
  "extensible (snd (target_set w k v)) = extensible w"
  by (auto simp: target_set_def split: option.splits property.splits)

lemma target_set_props_other: "k' \<noteq> k \<Longrightarrow> props (snd (target_set w k v)) k' = props w k'"
  by (auto simp: target_set_def split: option.splits property.splits)

lemma target_set_props_accessor:
  "(props (snd (target_set w k v)) k' = Some (EchoAccessor c)) = (props w k' = Some (EchoAccessor c))"
  by (auto simp: target_set_def split: option.splits property.splits)

lemma defineProperty_frame [simp]:
  "heap (snd (defineProperty w k c)) = heap w"
  "deliveries (snd (defineProperty w k c)) = deliveries w"
  "nextCell (snd (defineProperty w k c)) = nextCell w"
  "nextSub (snd (defineProperty w k c)) = nextSub w"
  "extensible (snd (defineProperty w k c)) = extensible w"
  "console (snd (defineProperty w k c)) = console w"
  by (auto simp: defineProperty_def split: option.splits property.splits)

lemma defineProperty_ok:
  "defineProperty w k c = (Inr u, w') \<Longrightarrow> props w' = (props w)(k \<mapsto> EchoAccessor c)"
  by (auto simp: defineProperty_def split: option.splits property.splits if_splits)

lemma defineProperty_props:
  "props (snd (defineProperty w k c)) k' = Some (EchoAccessor c') \<Longrightarrow>
   props w k' = Some (EchoAccessor c') \<or> c' = c"
  by (auto simp: defineProperty_def split: option.splits property.splits if_splits)

lemma createEchoProp_unfold:
  "createEchoProp w p i cfg =
     (if adoption_throws w i cfg then (Inl TypeError, w)
      else
       (case defineProperty (allocated w p i cfg) p (nextCell w) of
          (Inl e, w3) \<Rightarrow> (Inl e, w3)
        | (Inr u, w3) \<Rightarrow>
            if (case cfg_addAsObservableToTarget cfg of None \<Rightarrow> True | Some b \<Rightarrow> b)
            then (case target_set w3 (p @ ''$'') (JObservable (nextCell w)) of
                    (Inl e, w4) \<Rightarrow> (Inl e, w4)
                  | (Inr u', w4) \<Rightarrow> (Inr \<lparr>name = p, cell = nextCell w\<rparr>, w4))
            else (Inr \<lparr>name = p, cell = nextCell w\<rparr>, w3)))"
proof -
  have "emit (w\<lparr>heap := (heap w)(nextCell w :=
                    \<lparr>propertyName = p, validate = cfg_validate cfg,
                     log = (case cfg_log cfg of None \<Rightarrow> False | Some b \<Rightarrow> b),
                     subject = new_ReplaySubject (case cfg_replayCount cfg of None \<Rightarrow> 1 | Some n \<Rightarrow> n),
                     lastValue = v\<rparr>),
                 nextCell := Suc (nextCell w)\<rparr>) (nextCell w) v
        = w\<lparr>heap := (heap w)(nextCell w :=
                    \<lparr>propertyName = p, validate = cfg_validate cfg,
                     log = (case cfg_log cfg of None \<Rightarrow> False | Some b \<Rightarrow> b),
                     subject = \<lparr>bufferSize = max 1 (case cfg_replayCount cfg of None \<Rightarrow> 1 | Some n \<Rightarrow> n),
                                buffer = [v], observers = [], isStopped = False\<rparr>,
                     lastValue = v\<rparr>),
                 nextCell := Suc (nextCell w)\<rparr>" for v
    by (simp add: emit_def on_subject_def ReplaySubject_next_def new_ReplaySubject_def
                  trimBuffer_def Let_def)
  then show ?thesis
    by (simp add: createEchoProp_def Let_def allocated_def fresh_closure_def seed_value_def
                  new_ReplaySubject_def adoption_throws_def)
qed

lemma append_dollar_neq [simp]: "p @ ''$'' \<noteq> p" "p \<noteq> p @ ''$''"
  by (auto dest: arg_cong [where f = length])

lemma allocated_simps [simp]:
  "props (allocated w p i cfg) = props w"
  "extensible (allocated w p i cfg) = extensible w"
  "nextCell (allocated w p i cfg) = Suc (nextCell w)"
  "nextSub (allocated w p i cfg) = nextSub w"
  "deliveries (allocated w p i cfg) = deliveries w"
  "console (allocated w p i cfg) = console w"
  "heap (allocated w p i cfg) = (heap w)(nextCell w := fresh_closure p (seed_value w p i cfg) cfg)"
  by (simp_all add: allocated_def)

lemma createEchoProp_snd:
  "snd (createEchoProp w p i cfg) =
     (if adoption_throws w i cfg then w
      else if isl (fst (defineProperty (allocated w p i cfg) p (nextCell w)))
         \<or> \<not> (case cfg_addAsObservableToTarget cfg of None \<Rightarrow> True | Some b \<Rightarrow> b)
      then defined w p i cfg
      else snd (target_set (defined w p i cfg) (p @ ''$'') (JObservable (nextCell w))))"
  unfolding createEchoProp_unfold defined_def
  by (auto split: prod.splits sum.splits)

lemma createEchoProp_fst:
  "createEchoProp w p i cfg = (Inr h, w') \<Longrightarrow>
     \<not> adoption_throws w i cfg
     \<and> h = \<lparr>name = p, cell = nextCell w\<rparr>
     \<and> props (defined w p i cfg) = (props w)(p \<mapsto> EchoAccessor (nextCell w))
     \<and> w' = (if (case cfg_addAsObservableToTarget cfg of None \<Rightarrow> True | Some b \<Rightarrow> b)
             then snd (target_set (defined w p i cfg) (p @ ''$'') (JObservable (nextCell w)))
             else defined w p i cfg)"
  unfolding createEchoProp_unfold defined_def
  by (auto split: prod.splits sum.splits if_splits dest: defineProperty_ok)

lemma defined_simps [simp]:
  "heap (defined w p i cfg) = (heap w)(nextCell w := fresh_closure p (seed_value w p i cfg) cfg)"
  "deliveries (defined w p i cfg) = deliveries w"
  "nextCell (defined w p i cfg) = Suc (nextCell w)"
  "nextSub (defined w p i cfg) = nextSub w"
  "extensible (defined w p i cfg) = extensible w"
  "console (defined w p i cfg) = console w"
  by (simp_all add: defined_def)

lemma defined_props:
  "props (defined w p i cfg) k = Some (EchoAccessor c) \<Longrightarrow>
   props w k = Some (EchoAccessor c) \<or> c = nextCell w"
  unfolding defined_def by (drule defineProperty_props) simp

lemma defined_props_other: "k \<noteq> p \<Longrightarrow> props (defined w p i cfg) k = props w k"
  by (auto simp: defined_def defineProperty_def split: option.splits property.splits)

lemma createEchoProp_counters [simp]:
  "nextCell (snd (createEchoProp w p i cfg))
     = (if adoption_throws w i cfg then nextCell w else Suc (nextCell w))"
  "nextSub (snd (createEchoProp w p i cfg)) = nextSub w"
  "extensible (snd (createEchoProp w p i cfg)) = extensible w"
  by (simp_all add: createEchoProp_snd)

lemma createEchoProp_props_accessor:
  "props (snd (createEchoProp w p i cfg)) k = Some (EchoAccessor c) \<Longrightarrow>
   props w k = Some (EchoAccessor c) \<or> c = nextCell w"
  by (auto simp: createEchoProp_snd target_set_props_accessor split: if_splits dest: defined_props)

lemma createEchoProp_allocated:
  "accessors_allocated w \<Longrightarrow> accessors_allocated (snd (createEchoProp w p i cfg))"
proof (cases "adoption_throws w i cfg")
  case True
  assume "accessors_allocated w"
  then show ?thesis using True by (simp add: createEchoProp_snd)
next
  case False
  assume "accessors_allocated w"
  then show ?thesis
    using False unfolding accessors_allocated_def
    by (auto dest!: createEchoProp_props_accessor simp: less_Suc_eq)
qed

text \<open>An older closure is untouched, or was written once through its own setter.\<close>

lemma createEchoProp_heap_old:
  assumes "c \<noteq> nextCell w"
  shows "heap (snd (createEchoProp w p i cfg)) c = heap w c
       \<or> (props w (p @ ''$'') = Some (EchoAccessor c)
          \<and> heap (snd (createEchoProp w p i cfg)) c = write_cell (heap w c) (JObservable (nextCell w)))"
  using assms
  by (auto simp: createEchoProp_snd target_set_heap defined_props_other
           split: option.splits property.splits)

lemma createEchoProp_heap_new:
  assumes "accessors_allocated w" and "\<not> adoption_throws w i cfg"
  shows "heap (snd (createEchoProp w p i cfg)) (nextCell w) = fresh_closure p (seed_value w p i cfg) cfg"
proof -
  have "props w (p @ ''$'') \<noteq> Some (EchoAccessor (nextCell w))"
    using assms(1) by (auto simp: accessors_allocated_def)
  then show ?thesis
    using assms(2)
    by (auto simp: createEchoProp_snd target_set_heap defined_props_other
           split: option.splits property.splits)
qed

lemma rejected_iff:
  "(\<not> rejected cl v) = (validate cl = None \<or> (\<exists>f. validate cl = Some f \<and> truthy (f v (lastValue cl))))"
  by (auto simp: rejected_def split: option.splits)

lemma write_cell_accepted:
  "\<not> rejected cl v \<Longrightarrow>
   write_cell cl v = cl\<lparr>lastValue := v, subject := fst (ReplaySubject_next (subject cl) v)\<rparr>"
  by (simp add: write_cell_def)

lemma lastn_idem [simp]: "lastn n (lastn n xs) = lastn n xs"
  using lastn_lastn_append [of n xs "[]"] by simp

lemma subscribe_heap:
  "heap (snd (subscribe w c)) =
     (heap w)(c := (heap w c)\<lparr>subject := fst (ReplaySubject_subscribe (subject (heap w c)) (nextSub w))\<rparr>)"
  by (simp add: subscribe_def Let_def on_subject_def)

lemma subscribe_deliveries:
  "deliveries (snd (subscribe w c)) =
     deliveries w @ snd (ReplaySubject_subscribe (subject (heap w c)) (nextSub w))"
  by (simp add: subscribe_def Let_def on_subject_def)

lemma subscribe_frame [simp]:
  "props (snd (subscribe w c)) = props w"
  "nextCell (snd (subscribe w c)) = nextCell w"
  "nextSub (snd (subscribe w c)) = Suc (nextSub w)"
  "extensible (snd (subscribe w c)) = extensible w"
  "fst (subscribe w c) = nextSub w"
  by (simp_all add: subscribe_def Let_def on_subject_def)

lemma complete_heap:
  "heap (handle_complete w h) =
     (heap w)(cell h := (heap w (cell h))\<lparr>subject := fst (Subject_complete (subject (heap w (cell h))))\<rparr>)"
  by (simp add: handle_complete_def on_subject_def)

lemma complete_deliveries:
  "deliveries (handle_complete w h) =
     deliveries w @ snd (Subject_complete (subject (heap w (cell h))))"
  by (simp add: handle_complete_def on_subject_def)

lemma complete_frame [simp]:
  "props (handle_complete w h) = props w"
  "nextCell (handle_complete w h) = nextCell w"
  "nextSub (handle_complete w h) = nextSub w"
  "extensible (handle_complete w h) = extensible w"
  by (simp_all add: handle_complete_def on_subject_def)

lemma unsubscribe_frame [simp]:
  "props (unsubscribe w c ob) = props w"
  "nextCell (unsubscribe w c ob) = nextCell w"
  "nextSub (unsubscribe w c ob) = nextSub w"
  "extensible (unsubscribe w c ob) = extensible w"
  "deliveries (unsubscribe w c ob) = deliveries w"
  by (simp_all add: unsubscribe_def)

lemma unsubscribe_heap:
  "heap (unsubscribe w c ob) =
     (heap w)(c := (heap w c)\<lparr>subject := Subscription_unsubscribe (subject (heap w c)) ob\<rparr>)"
  by (simp add: unsubscribe_def)

lemma subscribe_subject:
  "fst (ReplaySubject_subscribe s ob) =
     (if isStopped s then s\<lparr>buffer := lastn (bufferSize s) (buffer s)\<rparr>
      else s\<lparr>buffer := lastn (bufferSize s) (buffer s), observers := observers s @ [ob]\<rparr>)"
  by (simp add: ReplaySubject_subscribe_def Let_def trimBuffer_eq)

lemma subscribe_replay:
  "snd (ReplaySubject_subscribe s ob) =
     map (\<lambda>v. (ob, Next v)) (lastn (bufferSize s) (buffer s))
     @ (if isStopped s then [(ob, Complete)] else [])"
  by (simp add: ReplaySubject_subscribe_def Let_def trimBuffer_eq)

subsection \<open>A stopped subject stays as it is\<close>

lemma stopped_write_cell:
  "stopped_with n B cl \<Longrightarrow> stopped_with n B (write_cell cl v)"
  by (auto simp: stopped_with_def write_cell_def next_subject)

lemma stopped_subscribe:
  "stopped_with n B cl \<Longrightarrow>
   stopped_with n B (cl\<lparr>subject := fst (ReplaySubject_subscribe (subject cl) ob)\<rparr>)"
  by (auto simp: stopped_with_def subscribe_subject)

lemma stopped_unsubscribe:
  "stopped_with n B cl \<Longrightarrow>
   stopped_with n B (cl\<lparr>subject := Subscription_unsubscribe (subject cl) ob\<rparr>)"
  by (simp add: stopped_with_def Subscription_unsubscribe_def)

lemma stopped_complete:
  "stopped_with n B cl \<Longrightarrow>
   stopped_with n B (cl\<lparr>subject := fst (Subject_complete (subject cl))\<rparr>)"
  by (simp add: stopped_with_def Subject_complete_def)

lemma complete_stops:
  "stopped_with (bufferSize (subject cl)) (lastn (bufferSize (subject cl)) (buffer (subject cl)))
     (cl\<lparr>subject := fst (Subject_complete (subject cl))\<rparr>)"
  by (simp add: stopped_with_def Subject_complete_def)

lemma step_nextCell: "nextCell w \<le> nextCell (step a w)"
  by (cases a) simp_all

lemma stopped_step:
  assumes "c < nextCell w" and "stopped_with n B (heap w c)"
  shows "stopped_with n B (heap (step a w) c)"
proof (cases a)
  case (Assign k v)
  then show ?thesis
    using assms(2)
    by (auto simp: target_set_heap stopped_write_cell split: option.splits property.splits)
next
  case (Subscribe c')
  then show ?thesis using assms(2) by (auto simp: subscribe_heap stopped_subscribe)
next
  case (Unsubscribe c' ob)
  then show ?thesis using assms(2) by (auto simp: unsubscribe_heap stopped_unsubscribe)
next
  case (Terminate c')
  then show ?thesis using assms(2) by (auto simp: complete_heap stopped_complete)
next
  case (Create k v cfg)
  have "c \<noteq> nextCell w" using assms(1) by simp
  from createEchoProp_heap_old [OF this, of k v cfg] show ?thesis
    using assms(2) Create by (auto simp: stopped_write_cell)
qed

lemma stopped_run:
  "c < nextCell w \<Longrightarrow> stopped_with n B (heap w c) \<Longrightarrow> stopped_with n B (heap (run as w) c)"
proof (induction as arbitrary: w)
  case Nil
  then show ?case by (simp add: run_def)
next
  case (Cons a as)
  have "c < nextCell (step a w)"
    using Cons.prems(1) step_nextCell [of w a] by simp
  moreover have "stopped_with n B (heap (step a w) c)"
    using Cons.prems by (rule stopped_step)
  ultimately have "stopped_with n B (heap (run as (step a w)) c)"
    by (rule Cons.IH)
  then show ?case by (simp add: run_def)
qed

lemma complete_run_stopped:
  assumes "cell h < nextCell w"
  shows "stopped_with (bufferSize (subject (heap w (cell h))))
           (lastn (bufferSize (subject (heap w (cell h)))) (buffer (subject (heap w (cell h)))))
           (heap (run as (handle_complete w h)) (cell h))"
proof -
  have "stopped_with (bufferSize (subject (heap w (cell h))))
           (lastn (bufferSize (subject (heap w (cell h)))) (buffer (subject (heap w (cell h)))))
           (heap (handle_complete w h) (cell h))"
    by (simp add: complete_heap complete_stops)
  with assms show ?thesis by (intro stopped_run) simp_all
qed

lemma stopped_write_silent:
  "isStopped (subject cl) \<Longrightarrow> write_deliveries cl v = []"
  by (simp add: write_deliveries_def next_deliveries)

subsection \<open>The example worlds, evaluated\<close>

lemmas eval_defs =
  createEchoProp_def empty_world_def no_config_def Let_def emit_def on_subject_def
  ReplaySubject_next_def new_ReplaySubject_def trimBuffer_def defineProperty_def target_set_def
  setter_def subscribe_def handle_subscribe_def handle_complete_def Subject_complete_def
  ReplaySubject_subscribe_def target_get_def handle_value_def hasOwnProperty_def
  hasOwnProperty_callable_def

lemma five_world_eq:
  "five_world =
     \<lparr>props = [''value'' \<mapsto> EchoAccessor 0, ''value$'' \<mapsto> DataProperty (JObservable 0) True True],
      extensible = True,
      heap = (\<lambda>c. blank)(0 := \<lparr>propertyName = ''value'', validate = Some at_least_five, log = True,
                subject = \<lparr>bufferSize = 1, buffer = [JNum 5], observers = [], isStopped = False\<rparr>,
                lastValue = JNum 5\<rparr>),
      nextCell = 1, nextSub = 0, deliveries = [], console = []\<rparr>"
  by (simp add: five_world_def five_config_def eval_defs)

lemma five_watched_eq:
  "five_watched =
     \<lparr>props = [''value'' \<mapsto> EchoAccessor 0, ''value$'' \<mapsto> DataProperty (JObservable 0) True True],
      extensible = True,
      heap = (\<lambda>c. blank)(0 := \<lparr>propertyName = ''value'', validate = Some at_least_five, log = True,
                subject = \<lparr>bufferSize = 1, buffer = [JNum 5], observers = [0], isStopped = False\<rparr>,
                lastValue = JNum 5\<rparr>),
      nextCell = 1, nextSub = 1, deliveries = [(0, Next (JNum 5))], console = []\<rparr>"
  by (simp add: five_watched_def five_world_eq value_handle_def eval_defs)

lemma plain_world_eq:
  "plain_world =
     \<lparr>props = [''value'' \<mapsto> EchoAccessor 0, ''value$'' \<mapsto> DataProperty (JObservable 0) True True],
      extensible = True,
      heap = (\<lambda>c. blank)(0 := \<lparr>propertyName = ''value'', validate = None, log = False,
                subject = \<lparr>bufferSize = 1, buffer = [JNum 1], observers = [], isStopped = False\<rparr>,
                lastValue = JNum 1\<rparr>),
      nextCell = 1, nextSub = 0, deliveries = [], console = []\<rparr>"
  by (simp add: plain_world_def eval_defs)

lemma watched_world_eq:
  "watched_world =
     \<lparr>props = [''value'' \<mapsto> EchoAccessor 0, ''value$'' \<mapsto> DataProperty (JObservable 0) True True],
      extensible = True,
      heap = (\<lambda>c. blank)(0 := \<lparr>propertyName = ''value'', validate = None, log = False,
                subject = \<lparr>bufferSize = 1, buffer = [JNum 1], observers = [0], isStopped = False\<rparr>,
                lastValue = JNum 1\<rparr>),
      nextCell = 1, nextSub = 1, deliveries = [(0, Next (JNum 1))], console = []\<rparr>"
  by (simp add: watched_world_def plain_world_eq value_handle_def eval_defs)

lemma completed_world_eq:
  "completed_world =
     \<lparr>props = [''value'' \<mapsto> EchoAccessor 0, ''value$'' \<mapsto> DataProperty (JObservable 0) True True],
      extensible = True,
      heap = (\<lambda>c. blank)(0 := \<lparr>propertyName = ''value'', validate = None, log = False,
                subject = \<lparr>bufferSize = 1, buffer = [JNum 1], observers = [], isStopped = True\<rparr>,
                lastValue = JNum 1\<rparr>),
      nextCell = 1, nextSub = 1, deliveries = [(0, Next (JNum 1)), (0, Complete)], console = []\<rparr>"
  by (simp add: completed_world_def watched_world_eq value_handle_def eval_defs)

lemma createEchoProp_result:
  assumes "createEchoProp w p i cfg = (Inr h, w')"
  shows "h = \<lparr>name = p, cell = nextCell w\<rparr>" and "w' = snd (createEchoProp w p i cfg)"
    and "props w' p = Some (EchoAccessor (nextCell w))"
    and "\<not> adoption_throws w i cfg" and "nextCell w' = Suc (nextCell w)"
proof -
  show nt: "\<not> adoption_throws w i cfg"
    using createEchoProp_fst [OF assms] by simp
  show "nextCell w' = Suc (nextCell w)"
    using createEchoProp_counters(1) [of w p i cfg] assms nt by simp
  show "h = \<lparr>name = p, cell = nextCell w\<rparr>"
    using createEchoProp_fst [OF assms] by simp
  show "w' = snd (createEchoProp w p i cfg)"
    using assms by simp
  show "props w' p = Some (EchoAccessor (nextCell w))"
    using createEchoProp_fst [OF assms]
    by (auto simp: target_set_props_other)
qed

lemma fresh_replay:
  "snd (ReplaySubject_subscribe (subject (fresh_closure p v cfg)) ob)
     = (if nullish v then [] else [(ob, Next v)])"
  by (simp add: subscribe_replay fresh_closure_def lastn_def)

lemma write_cell_fixed [simp]:
  "validate (write_cell cl v) = validate cl"
  "log (write_cell cl v) = log cl"
  "propertyName (write_cell cl v) = propertyName cl"
  "observers (subject (write_cell cl v)) = observers (subject cl)"
  "isStopped (subject (write_cell cl v)) = isStopped (subject cl)"
  "bufferSize (subject (write_cell cl v)) = bufferSize (subject cl)"
  by (simp_all add: write_cell_def next_subject)

lemma spec_invoke_simps:
  "spec_invoke cfg (Inl e, w) pair = (Inl e, w)"
  "spec_invoke cfg (Inr hs, w) (p, d) =
     (case createEchoProp w p d cfg of
        (Inl e, w') \<Rightarrow> (Inl e, w')
      | (Inr h, w') \<Rightarrow> (Inr (hs @ [h]), w'))"
  by (simp_all add: spec_invoke_def)

lemma foldl_invoke_failed: "foldl (spec_invoke cfg) (Inl e, w) es = (Inl e, w)"
  by (induction es) (simp_all add: spec_invoke_simps)

lemma foldl_spec_invoke:
  "foldl (spec_invoke cfg) (Inr acc, w) es =
     (case createEchoProps w es cfg of
        (Inl e, w') \<Rightarrow> (Inl e, w')
      | (Inr hs, w') \<Rightarrow> (Inr (acc @ hs), w'))"
proof (induction es arbitrary: acc w)
  case Nil
  then show ?case by simp
next
  case (Cons pair es)
  obtain p d where pair: "pair = (p, d)" by (cases pair)
  show ?case
  proof (cases "createEchoProp w p d cfg")
    case (Pair r w1)
    show ?thesis
    proof (cases r)
      case (Inl e)
      then show ?thesis
        using Pair pair by (simp add: spec_invoke_simps foldl_invoke_failed)
    next
      case (Inr h)
      then show ?thesis
        using Pair pair Cons.IH [of "acc @ [h]" w1]
        by (simp add: spec_invoke_simps split: prod.splits sum.splits)
    qed
  qed
qed

subsection \<open>Subscribers of different properties are different\<close>

lemma createEchoProp_observers_new:
  "\<not> adoption_throws w i cfg \<Longrightarrow>
   observers (subject (heap (snd (createEchoProp w p i cfg)) (nextCell w))) = []"
  by (auto simp: createEchoProp_snd target_set_heap fresh_closure_def
           split: option.splits property.splits)

lemma createEchoProp_observers_old:
  "c \<noteq> nextCell w \<Longrightarrow>
   observers (subject (heap (snd (createEchoProp w p i cfg)) c)) = observers (subject (heap w c))"
  using createEchoProp_heap_old [of c w p i cfg] by auto

lemma separate_createEchoProp:
  assumes "subscribers_separate w"
  shows "subscribers_separate (snd (createEchoProp w p i cfg))"
proof (cases "adoption_throws w i cfg")
  case True
  then show ?thesis using assms by (simp add: createEchoProp_snd)
next
  case False
  have obs: "observers (subject (heap (snd (createEchoProp w p i cfg)) c))
             = (if c = nextCell w then [] else observers (subject (heap w c)))" for c
    using False by (simp add: createEchoProp_observers_new createEchoProp_observers_old)
  show ?thesis
    using assms False unfolding subscribers_separate_def
    by (auto simp: obs less_Suc_eq)
qed

lemma separate_target_set:
  assumes "subscribers_separate w"
  shows "subscribers_separate (snd (target_set w k v))"
proof -
  have "observers (subject (heap (snd (target_set w k v)) c)) = observers (subject (heap w c))" for c
    by (auto simp: target_set_heap split: option.splits property.splits)
  then show ?thesis
    using assms unfolding subscribers_separate_def by simp
qed

lemma separate_subscribe:
  assumes "subscribers_separate w"
  shows "subscribers_separate (snd (subscribe w c))"
proof -
  have obs: "set (observers (subject (heap (snd (subscribe w c)) c')))
             \<subseteq> set (observers (subject (heap w c'))) \<union> (if c' = c then {nextSub w} else {})" for c'
    by (auto simp: subscribe_heap subscribe_subject)
  show ?thesis
    unfolding subscribers_separate_def
  proof (intro conjI allI impI ballI)
    fix c' ob
    assume "c' < nextCell (snd (subscribe w c))"
       and "ob \<in> set (observers (subject (heap (snd (subscribe w c)) c')))"
    then show "ob < nextSub (snd (subscribe w c))"
      using obs [of c'] assms unfolding subscribers_separate_def
      by (auto simp: less_Suc_eq split: if_splits)
  next
    fix c1 c2
    assume a: "c1 < nextCell (snd (subscribe w c))" "c2 < nextCell (snd (subscribe w c))" "c1 \<noteq> c2"
    have fresh: "nextSub w \<notin> set (observers (subject (heap w c')))" if "c' < nextCell w" for c'
      using assms that unfolding subscribers_separate_def by auto
    have disj: "set (observers (subject (heap w c1))) \<inter> set (observers (subject (heap w c2))) = {}"
      using assms a unfolding subscribers_separate_def by simp
    show "set (observers (subject (heap (snd (subscribe w c)) c1)))
          \<inter> set (observers (subject (heap (snd (subscribe w c)) c2))) = {}"
      using obs [of c1] obs [of c2] a fresh [of c1] fresh [of c2] disj
      by (auto split: if_splits)
  qed
qed

lemma separate_shrink:
  assumes "subscribers_separate w"
      and "nextCell w' = nextCell w" and "nextSub w' = nextSub w"
      and "\<And>c. set (observers (subject (heap w' c))) \<subseteq> set (observers (subject (heap w c)))"
  shows "subscribers_separate w'"
  unfolding subscribers_separate_def
proof (intro conjI allI impI ballI)
  fix c ob
  assume "c < nextCell w'" and "ob \<in> set (observers (subject (heap w' c)))"
  then have "c < nextCell w" and "ob \<in> set (observers (subject (heap w c)))"
    using assms(2,4) by auto
  then show "ob < nextSub w'"
    using assms(1,3) unfolding subscribers_separate_def by simp
next
  fix c c'
  assume "c < nextCell w'" and "c' < nextCell w'" and "c \<noteq> c'"
  then have "set (observers (subject (heap w c))) \<inter> set (observers (subject (heap w c'))) = {}"
    using assms(1,2) unfolding subscribers_separate_def by simp
  then show "set (observers (subject (heap w' c))) \<inter> set (observers (subject (heap w' c'))) = {}"
    using assms(4) [of c] assms(4) [of c'] by blast
qed

lemma separate_unsubscribe:
  "subscribers_separate w \<Longrightarrow> subscribers_separate (unsubscribe w c ob)"
  by (erule separate_shrink)
     (auto simp: unsubscribe_heap Subscription_unsubscribe_def dest: set_mp [OF set_remove1_subset])

lemma separate_complete:
  "subscribers_separate w \<Longrightarrow> subscribers_separate (handle_complete w h)"
  by (erule separate_shrink) (auto simp: complete_heap Subject_complete_def)

lemma separate_step: "subscribers_separate w \<Longrightarrow> subscribers_separate (step a w)"
  by (cases a)
     (simp_all add: separate_target_set separate_subscribe separate_unsubscribe
                    separate_complete separate_createEchoProp)

lemma separate_run: "subscribers_separate w \<Longrightarrow> subscribers_separate (run as w)"
  by (induction as arbitrary: w) (simp_all add: run_def separate_step)


subsection \<open>What createEchoProps allocates\<close>

lemma createEchoProps_cells:
  "createEchoProps w es cfg = (Inr hs, w') \<Longrightarrow>
   map name hs = map fst es \<and> map cell hs = [nextCell w ..< nextCell w + length es]
   \<and> nextCell w' = nextCell w + length es"
proof (induction es arbitrary: w hs)
  case Nil
  then show ?case by simp
next
  case (Cons pair es)
  obtain p d where pair: "pair = (p, d)" by (cases pair)
  from Cons.prems pair obtain h w1 hs' where
    c: "createEchoProp w p d cfg = (Inr h, w1)" and
    r: "createEchoProps w1 es cfg = (Inr hs', w')" and hs: "hs = h # hs'"
    by (auto split: prod.splits sum.splits)
  have w1: "nextCell w1 = Suc (nextCell w)"
    using c by (rule createEchoProp_result(5))
  from Cons.IH [OF r] createEchoProp_result(1) [OF c] show ?case
    by (simp add: hs pair w1 upt_conv_Cons del: upt_Suc)
qed








lemma createEchoProp_index_eq:
  "createEchoProp_index w p i cfg =
     createEchoProp w p i (cfg\<lparr>cfg_useExistingValueAsInitial := Some False\<rparr>)"
  by (simp add: createEchoProp_index_def createEchoProp_def)

subsection \<open>Runs that keep a subject live\<close>

lemma accepted_writes_append:
  "accepted_writes vd cur (xs @ ys)
     = accepted_writes vd cur xs
       @ accepted_writes vd (last (cur # accepted_writes vd cur xs)) ys"
  by (induction xs arbitrary: cur) simp_all

lemma create_heap_old:
  assumes "c \<noteq> nextCell w"
  shows "heap (snd (createEchoProp w k v cfg)) c
         = (if \<not> adoption_throws w v cfg \<and> definable w k
               \<and> cfg_addAsObservableToTarget cfg \<noteq> Some False
               \<and> props w (k @ ''$'') = Some (EchoAccessor c)
            then write_cell (heap w c) (JObservable (nextCell w)) else heap w c)"
proof -
  have d: "definable w k = (\<not> isl (fst (defineProperty (allocated w k v cfg) k (nextCell w))))"
    by (auto simp: definable_def defineProperty_def split: option.splits property.splits)
  have a: "(cfg_addAsObservableToTarget cfg \<noteq> Some False)
           = (case cfg_addAsObservableToTarget cfg of None \<Rightarrow> True | Some b \<Rightarrow> b)"
    by (auto split: option.splits)
  show ?thesis
    using assms
    by (auto simp: createEchoProp_snd d a target_set_heap defined_props_other
             split: option.splits property.splits)
qed

lemma live_step_closure:
  assumes "live_action c a" and "live_with n vd (heap w c)" and "c < nextCell w"
  shows "live_with n vd (heap (step a w) c)
       \<and> lastValue (heap (step a w) c)
           = last (lastValue (heap w c) # accepted_writes vd (lastValue (heap w c)) (attempt w c a))
       \<and> buffer (subject (heap (step a w) c))
           = lastn n (buffer (subject (heap w c))
                      @ accepted_writes vd (lastValue (heap w c)) (attempt w c a))"
proof -
  have wr: "live_with n vd (write_cell (heap w c) v)
       \<and> lastValue (write_cell (heap w c) v)
           = last (lastValue (heap w c) # accepted_writes vd (lastValue (heap w c)) [v])
       \<and> buffer (subject (write_cell (heap w c) v))
           = lastn n (buffer (subject (heap w c))
                      @ accepted_writes vd (lastValue (heap w c)) [v])" for v
  proof -
    have r: "rejected (heap w c) v = (case vd of None \<Rightarrow> False
                                        | Some f \<Rightarrow> \<not> truthy (f v (lastValue (heap w c))))"
      using assms(2) by (simp add: rejected_def live_with_def)
    show ?thesis
      using assms(2) r
      by (auto simp: live_with_def write_cell_def next_subject lastn_length lastn_all)
  qed
  have same: "live_with n vd (heap w c)
       \<and> lastValue (heap w c)
           = last (lastValue (heap w c) # accepted_writes vd (lastValue (heap w c)) [])
       \<and> buffer (subject (heap w c))
           = lastn n (buffer (subject (heap w c))
                      @ accepted_writes vd (lastValue (heap w c)) [])"
    using assms(2) by (simp add: live_with_def lastn_all)
  show ?thesis
  proof (cases a)
    case (Assign k v)
    show ?thesis
    proof (cases "props w k = Some (EchoAccessor c)")
      case True
      have h: "heap (step a w) c = write_cell (heap w c) v"
        using True Assign by (simp add: target_set_heap)
      have at: "attempt w c a = [v]"
        using True Assign by simp
      show ?thesis unfolding h at by (rule wr)
    next
      case False
      have h: "heap (step a w) c = heap w c"
        using False Assign by (auto simp: target_set_heap split: option.splits property.splits)
      have at: "attempt w c a = []"
        using False Assign by simp
      show ?thesis unfolding h at by (rule same)
    qed
  next
    case (Subscribe c')
    then show ?thesis
      using assms(2) by (auto simp: subscribe_heap subscribe_subject live_with_def lastn_all)
  next
    case (Unsubscribe c' ob)
    then show ?thesis
      using assms(2)
      by (auto simp: unsubscribe_heap Subscription_unsubscribe_def live_with_def lastn_all)
  next
    case (Terminate c')
    then show ?thesis
      using assms by (auto simp: complete_heap live_with_def lastn_all)
  next
    case (Create k v cfg)
    have ne: "c \<noteq> nextCell w" using assms(3) by simp
    show ?thesis
    proof (cases "\<not> adoption_throws w v cfg \<and> definable w k
                  \<and> cfg_addAsObservableToTarget cfg \<noteq> Some False
                  \<and> props w (k @ ''$'') = Some (EchoAccessor c)")
      case True
      have h: "heap (step a w) c = write_cell (heap w c) (JObservable (nextCell w))"
        using True Create create_heap_old [OF ne, of k v cfg] by simp
      have at: "attempt w c a = [JObservable (nextCell w)]"
        using True Create by simp
      show ?thesis unfolding h at by (rule wr)
    next
      case False
      have h: "heap (step a w) c = heap w c"
        using False Create create_heap_old [OF ne, of k v cfg] by auto
      have at: "attempt w c a = []"
        using False Create by auto
      show ?thesis unfolding h at by (rule same)
    qed
  qed
qed

lemma live_run:
  assumes "list_all (live_action c) as" and "live_with n vd (heap w c)" and "c < nextCell w"
  shows "live_with n vd (heap (run as w) c)
       \<and> lastValue (heap (run as w) c)
           = last (lastValue (heap w c) # accepted_writes vd (lastValue (heap w c)) (attempts w c as))
       \<and> buffer (subject (heap (run as w) c))
           = lastn n (buffer (subject (heap w c))
                      @ accepted_writes vd (lastValue (heap w c)) (attempts w c as))"
  using assms
proof (induction as arbitrary: w)
  case Nil
  then show ?case by (simp add: run_def live_with_def lastn_all)
next
  case (Cons a as)
  have la: "live_action c a" and las: "list_all (live_action c) as"
    using Cons.prems(1) by simp_all
  note s = live_step_closure [OF la Cons.prems(2,3)]
  from s have s1: "live_with n vd (heap (step a w) c)" by blast
  have s2: "c < nextCell (step a w)"
    using Cons.prems(3) step_nextCell [of w a] by simp
  note ih = Cons.IH [OF las s1 s2]
  have run: "run (a # as) w = run as (step a w)" by (simp add: run_def)
  show ?case
    unfolding run attempts.simps accepted_writes_append
    using ih s
    by (simp add: lastn_lastn_append)
qed

subsection \<open>The conditions on a world hold in every world a caller can reach\<close>

lemma allocated_step: "accessors_allocated w \<Longrightarrow> accessors_allocated (step a w)"
proof (cases a)
  case (Create k v cfg)
  assume "accessors_allocated w"
  then show ?thesis using Create by (simp add: createEchoProp_allocated)
qed (simp_all add: accessors_allocated_def target_set_props_accessor)

lemma allocated_run: "accessors_allocated w \<Longrightarrow> accessors_allocated (run as w)"
  by (induction as arbitrary: w) (simp_all add: run_def allocated_step)

lemma zero_create:
  "createEchoProp empty_world ''value'' (JNum 5) zero_config =
    (Inr value_handle,
     \<lparr>props = [''value'' \<mapsto> EchoAccessor 0, ''value$'' \<mapsto> DataProperty (JObservable 0) True True],
      extensible = True,
      heap = (\<lambda>c. blank)(0 := \<lparr>propertyName = ''value'', validate = None, log = False,
                subject = \<lparr>bufferSize = 1, buffer = [JNum 5], observers = [], isStopped = False\<rparr>,
                lastValue = JNum 5\<rparr>),
      nextCell = 1, nextSub = 0, deliveries = [], console = []\<rparr>)"
  by (simp add: zero_config_def value_handle_def eval_defs)

lemma two_create:
  "createEchoProp empty_world ''value'' (JNum 1) two_config =
    (Inr value_handle,
     \<lparr>props = [''value'' \<mapsto> EchoAccessor 0, ''value$'' \<mapsto> DataProperty (JObservable 0) True True],
      extensible = True,
      heap = (\<lambda>c. blank)(0 := \<lparr>propertyName = ''value'', validate = None, log = False,
                subject = \<lparr>bufferSize = 2, buffer = [JNum 1], observers = [], isStopped = False\<rparr>,
                lastValue = JNum 1\<rparr>),
      nextCell = 1, nextSub = 0, deliveries = [], console = []\<rparr>)"
  by (simp add: two_config_def value_handle_def eval_defs numeral_2_eq_2)

lemma answer_create:
  "createEchoProp answer_target ''existingProp'' Null no_config =
    (Inr existing_handle,
     \<lparr>props = [''existingProp'' \<mapsto> EchoAccessor 0,
               ''existingProp$'' \<mapsto> DataProperty (JObservable 0) True True],
      extensible = True,
      heap = (\<lambda>c. blank)(0 := \<lparr>propertyName = ''existingProp'', validate = None, log = False,
                subject = \<lparr>bufferSize = 1, buffer = [JNum 42], observers = [], isStopped = False\<rparr>,
                lastValue = JNum 42\<rparr>),
      nextCell = 1, nextSub = 0, deliveries = [], console = []\<rparr>)"
  by (simp add: answer_target_def existing_handle_def eval_defs)

lemma null_create:
  "createEchoProp null_target ''existingProp'' Undefined no_config =
    (Inr existing_handle,
     \<lparr>props = [''existingProp'' \<mapsto> EchoAccessor 0,
               ''existingProp$'' \<mapsto> DataProperty (JObservable 0) True True],
      extensible = True,
      heap = (\<lambda>c. blank)(0 := \<lparr>propertyName = ''existingProp'', validate = None, log = False,
                subject = \<lparr>bufferSize = 1, buffer = [], observers = [], isStopped = False\<rparr>,
                lastValue = Null\<rparr>),
      nextCell = 1, nextSub = 0, deliveries = [], console = []\<rparr>)"
  by (simp add: null_target_def existing_handle_def eval_defs)

lemma strict_create:
  "createEchoProp empty_world ''value'' (JNum 5) strict_config =
    (Inr value_handle,
     \<lparr>props = [''value'' \<mapsto> EchoAccessor 0, ''value$'' \<mapsto> DataProperty (JObservable 0) True True],
      extensible = True,
      heap = (\<lambda>c. blank)(0 := \<lparr>propertyName = ''value'', validate = Some reject_all, log = False,
                subject = \<lparr>bufferSize = 1, buffer = [JNum 5], observers = [], isStopped = False\<rparr>,
                lastValue = JNum 5\<rparr>),
      nextCell = 1, nextSub = 0, deliveries = [], console = []\<rparr>)"
  by (simp add: strict_config_def value_handle_def eval_defs)

lemma plain_create_eq:
  "createEchoProp empty_world ''value'' (JNum 1) no_config = (Inr value_handle, plain_world)"
  by (simp add: plain_world_def value_handle_def eval_defs)

lemma game_create:
  "createEchoProps empty_world game_book no_config =
    (Inr [score_handle, health_handle],
     \<lparr>props = [''score'' \<mapsto> EchoAccessor 0, ''score$'' \<mapsto> DataProperty (JObservable 0) True True,
               ''health'' \<mapsto> EchoAccessor 1, ''health$'' \<mapsto> DataProperty (JObservable 1) True True],
      extensible = True,
      heap = (\<lambda>c. blank)
               (0 := \<lparr>propertyName = ''score'', validate = None, log = False,
                subject = \<lparr>bufferSize = 1, buffer = [JNum 0], observers = [], isStopped = False\<rparr>,
                lastValue = JNum 0\<rparr>,
                1 := \<lparr>propertyName = ''health'', validate = None, log = False,
                subject = \<lparr>bufferSize = 1, buffer = [JNum 100], observers = [], isStopped = False\<rparr>,
                lastValue = JNum 100\<rparr>),
      nextCell = 2, nextSub = 0, deliveries = [], console = []\<rparr>)"
  by (simp add: game_book_def score_handle_def health_handle_def eval_defs)

lemma accessors_allocated_empty: "accessors_allocated empty_world"
  by (simp add: accessors_allocated_def empty_world_def)

lemma subscribers_separate_empty: "subscribers_separate empty_world"
  by (simp add: subscribers_separate_def empty_world_def)

lemma reachable_conditions:
  "accessors_allocated (run as empty_world) \<and> subscribers_separate (run as empty_world)"
  by (simp add: allocated_run separate_run accessors_allocated_empty subscribers_separate_empty)

lemma zero_world_eq: "createEchoProp empty_world ''value'' (JNum 5) zero_config = (Inr value_handle, zero_world)"
  by (simp add: zero_world_def zero_create)

lemma two_world_eq: "createEchoProp empty_world ''value'' (JNum 1) two_config = (Inr value_handle, two_world)"
  by (simp add: two_world_def two_create)

lemma answer_world_eq:
  "createEchoProp answer_target ''existingProp'' Null no_config = (Inr existing_handle, answer_world)"
  by (simp add: answer_world_def answer_create)

lemma null_world_eq:
  "createEchoProp null_target ''existingProp'' Undefined no_config = (Inr existing_handle, null_world)"
  by (simp add: null_world_def null_create)

lemma strict_world_eq:
  "createEchoProp empty_world ''value'' (JNum 5) strict_config = (Inr value_handle, strict_world)"
  by (simp add: strict_world_def strict_create)

lemma game_world_eq:
  "createEchoProps empty_world game_book no_config = (Inr [score_handle, health_handle], game_world)"
  by (simp add: game_world_def game_create)

lemmas world_values =
  zero_create [unfolded zero_world_eq, simplified]
  two_create [unfolded two_world_eq, simplified]
  answer_create [unfolded answer_world_eq, simplified]
  null_create [unfolded null_world_eq, simplified]
  strict_create [unfolded strict_world_eq, simplified]
  game_create [unfolded game_world_eq, simplified]


lemma busy_attempts: "attempts two_world 0 busy_run = [JNum 2, JNum 3, JNum 4]"
  by (simp add: busy_run_def world_values eval_defs definable_def)

section \<open>Facts about subscribers that write back\<close>




lemma target_set_reentrant_data:
  "\<forall>c. props w k \<noteq> Some (EchoAccessor c) \<Longrightarrow>
   target_set_reentrant fuel cbs w k v = Some (target_set w k v)"
  by (simp add: target_set_reentrant_def split: option.splits property.splits)

lemma run_callback_mono:
  assumes "\<And>w c x w'. inner w c x = Some w' \<Longrightarrow> inner' w c x = Some w'"
  shows "run_callback inner w acts = Some w' \<Longrightarrow> run_callback inner' w acts = Some w'"
proof (induction acts arbitrary: w)
  case Nil
  then show ?case by simp
next
  case (Cons a acts)
  obtain k x where a: "a = (k, x)" by (cases a)
  show ?case
  proof (cases "props w k")
    case None
    then show ?thesis
      using Cons a by (simp split: if_splits)
  next
    case (Some p)
    show ?thesis
    proof (cases p)
      case (DataProperty old writable configurable)
      then show ?thesis
        using Cons a Some by (simp split: if_splits)
    next
      case (EchoAccessor c)
      then obtain w1 where w1: "inner w c x = Some w1" "run_callback inner w1 acts = Some w'"
        using Cons.prems a Some by (auto split: option.splits)
      have "inner' w c x = Some w1" using w1(1) by (rule assms)
      then show ?thesis
        using Cons.IH [OF w1(2)] a Some EchoAccessor by simp
    qed
  qed
qed

lemma deliver_mono:
  assumes "\<And>w c x w'. inner w c x = Some w' \<Longrightarrow> inner' w c x = Some w'"
  shows "deliver inner cbs w obs v = Some w' \<Longrightarrow> deliver inner' cbs w obs v = Some w'"
proof (induction obs arbitrary: w)
  case Nil
  then show ?case by simp
next
  case (Cons ob obs)
  then show ?case
    using run_callback_mono [of inner inner', OF assms]
    by (auto split: option.splits)
qed

lemma setter_reentrant_Suc:
  "setter_reentrant fuel cbs w c v = Some w' \<Longrightarrow> setter_reentrant (Suc fuel) cbs w c v = Some w'"
proof (induction fuel arbitrary: w c v w')
  case 0
  then show ?case by simp
next
  case (Suc fuel)
  have m: "\<And>w c x w'. setter_reentrant fuel cbs w c x = Some w'
             \<Longrightarrow> setter_reentrant (Suc fuel) cbs w c x = Some w'"
    by (rule Suc.IH)
  show ?case
    using Suc.prems deliver_mono [of "setter_reentrant fuel cbs" "setter_reentrant (Suc fuel) cbs", OF m]
    by (subst setter_reentrant.simps) (auto simp: Let_def split: if_splits)
qed

lemma setter_reentrant_more_fuel:
  "setter_reentrant fuel cbs w c v = Some w' \<Longrightarrow> setter_reentrant (fuel + n) cbs w c v = Some w'"
  by (induction n) (simp_all add: setter_reentrant_Suc del: setter_reentrant.simps)

subsection \<open>The example with a subscriber that writes back, evaluated\<close>

lemma pair_world_eq:
  "pair_world =
     \<lparr>props = [''value'' \<mapsto> EchoAccessor 0, ''value$'' \<mapsto> DataProperty (JObservable 0) True True],
      extensible = True,
      heap = (\<lambda>c. blank)(0 := \<lparr>propertyName = ''value'', validate = None, log = False,
                subject = \<lparr>bufferSize = 1, buffer = [JNum 1], observers = [0, 1], isStopped = False\<rparr>,
                lastValue = JNum 1\<rparr>),
      nextCell = 1, nextSub = 2, deliveries = [(0, Next (JNum 1)), (1, Next (JNum 1))], console = []\<rparr>"
  by (simp add: pair_world_def watched_world_eq value_handle_def eval_defs)



lemma write_back_starved:
  "target_set_reentrant 1 write_back pair_world ''value'' (JNum 7) = None"
  by (simp add: pair_world_eq target_set_reentrant_def write_back_def Let_def trimBuffer_def)

subsection \<open>An accepted write to a live subject\<close>


subsection \<open>The examples by the createEchoProp of src/index.js, evaluated\<close>

lemma unadopted_create:
  "createEchoProp_index answer_target ''existingProp'' Null no_config =
     (Inr existing_handle,
      \<lparr>props = [''existingProp'' \<mapsto> EchoAccessor 0,
                ''existingProp$'' \<mapsto> DataProperty (JObservable 0) True True],
       extensible = True,
       heap = (\<lambda>c. blank)(0 := \<lparr>propertyName = ''existingProp'', validate = None, log = False,
                 subject = \<lparr>bufferSize = 1, buffer = [], observers = [], isStopped = False\<rparr>,
                 lastValue = Null\<rparr>),
       nextCell = 1, nextSub = 0, deliveries = [], console = []\<rparr>)"
  by (simp add: createEchoProp_index_def answer_target_def existing_handle_def eval_defs)

lemma unadopted_world_eq:
  "createEchoProp_index answer_target ''existingProp'' Null no_config
     = (Inr existing_handle, unadopted_world)"
  by (simp add: unadopted_world_def unadopted_create)

lemmas unadopted_value = unadopted_create [unfolded unadopted_world_eq, simplified]

lemma zero_index_eq:
  "createEchoProp_index empty_world ''value'' (JNum 5) zero_config = (Inr value_handle, zero_world)"
  using zero_world_eq
  by (simp add: createEchoProp_index_eq createEchoProp_def Let_def)


section \<open>Replay and adoption in general\<close>

text \<open>
  Let a property be created with replay count \<open>R\<close>, and let the caller then do anything but
  complete its stream; let the history be the initial value, if it is not null or
  undefined, followed by the values that were assigned through the accessor and accepted.
  A subscriber that registers then is handed exactly the last \<open>max(1, R)\<close> values of the
  history, oldest first.  After that a rejected write hands nothing to anyone, and the
  next accepted write hands its value to the observers registered before and then to the
  new subscriber.
\<close>

lemma replay_after_live_run:
  assumes "createEchoProp w propName initialValue cfg = (Inr h, w1)"
      and "accessors_allocated w"
      and "list_all (live_action (cell h)) as"
  shows "let R = (case cfg_replayCount cfg of None \<Rightarrow> 1 | Some n \<Rightarrow> n);
             seed = seed_value w propName initialValue cfg;
             history = (if nullish seed then [] else [seed])
                       @ accepted_writes (cfg_validate cfg) seed (attempts w1 (cell h) as);
             w2 = run as w1;
             ob = fst (handle_subscribe w2 h);
             w3 = snd (handle_subscribe w2 h)
         in deliveries w3 = deliveries w2 @ map (\<lambda>v. (ob, Next v)) (lastn (max 1 R) history)
          \<and> length (lastn (max 1 R) history) = min (max 1 R) (length history)
          \<and> (\<forall>k v. props w3 k = Some (EchoAccessor (cell h)) \<and> rejected (heap w3 (cell h)) v \<longrightarrow>
                 deliveries (snd (target_set w3 k v)) = deliveries w3)
          \<and> (\<forall>k v. props w3 k = Some (EchoAccessor (cell h)) \<and> \<not> rejected (heap w3 (cell h)) v \<longrightarrow>
                 deliveries (snd (target_set w3 k v))
                   = deliveries w3
                     @ map (\<lambda>s. (s, Next v)) (observers (subject (heap w2 (cell h))) @ [ob]))"
proof -
  define c where "c = nextCell w"
  define seed where "seed = seed_value w propName initialValue cfg"
  define cl where "cl = fresh_closure propName seed cfg"
  define A where "A = accepted_writes (cfg_validate cfg) seed (attempts w1 c as)"
  define w2 where "w2 = run as w1"
  define n where "n = max 1 (case cfg_replayCount cfg of None \<Rightarrow> 1 | Some n \<Rightarrow> n)"
  note r = createEchoProp_result [OF assms(1)]
  have h: "cell h = c" using r(1) by (simp add: c_def)
  have cl1: "heap w1 c = cl"
    using createEchoProp_heap_new [OF assms(2) r(4), of propName] r(2)
    by (simp add: c_def cl_def seed_def)
  have al: "c < nextCell w1"
    using r(5) by (simp add: c_def)
  have cl_simps: "lastValue cl = seed" "buffer (subject cl) = (if nullish seed then [] else [seed])"
    by (simp_all add: cl_def fresh_closure_def)
  have "live_with n (cfg_validate cfg) cl"
    by (simp add: live_with_def cl_def fresh_closure_def n_def)
  then have lw: "live_with n (cfg_validate cfg) (heap w1 c)" by (simp add: cl1)
  have la: "list_all (live_action c) as" using assms(3) by (simp add: h)
  note l = live_run [OF la lw al, folded w2_def, unfolded cl1 cl_simps, folded A_def]
  have cl2: "isStopped (subject (heap w2 c)) = False" "bufferSize (subject (heap w2 c)) = n"
            "buffer (subject (heap w2 c)) = lastn n ((if nullish seed then [] else [seed]) @ A)"
    using l by (simp_all add: live_with_def)
  define w3 where "w3 = snd (subscribe w2 c)"
  have d3: "deliveries w3
            = deliveries w2 @ map (\<lambda>v. (nextSub w2, Next v))
                                  (lastn n ((if nullish seed then [] else [seed]) @ A))"
    by (simp add: w3_def subscribe_deliveries subscribe_replay cl2)
  have cl3: "isStopped (subject (heap w3 c)) = False"
            "observers (subject (heap w3 c)) = observers (subject (heap w2 c)) @ [nextSub w2]"
    by (simp_all add: w3_def subscribe_heap subscribe_subject cl2)
  have rej: "deliveries (snd (target_set w3 k v)) = deliveries w3"
    if "props w3 k = Some (EchoAccessor c)" and "rejected (heap w3 c) v" for k v
    using that by (simp add: target_set_deliveries write_deliveries_def)
  have acc: "deliveries (snd (target_set w3 k v))
             = deliveries w3 @ map (\<lambda>s. (s, Next v)) (observers (subject (heap w2 c)) @ [nextSub w2])"
    if "props w3 k = Some (EchoAccessor c)" and "\<not> rejected (heap w3 c) v" for k v
    using that cl3 by (simp add: target_set_deliveries write_deliveries_def next_deliveries)
  show ?thesis
    unfolding Let_def handle_subscribe_def h
    using d3 rej acc
    by (simp add: w3_def w2_def n_def seed_def A_def lastn_length)
qed

text \<open>
  The createEchoProp of src/unnamed/part_002: when it returns a handle after a call with
  an initial value that is null or undefined, \<open>useExistingValueAsInitial\<close> absent or true,
  and a target that has an own field \<open>name\<close> reading \<open>V\<close>, then \<open>handle.value\<close> and
  \<open>target[name]\<close> read \<open>V\<close>, and a subscriber that registers before any write is replayed
  exactly \<open>V\<close> when \<open>V\<close> is not null or undefined, and nothing when it is, as with an
  explicit initial value.
\<close>

lemma adoption_part_002:
  assumes "createEchoProp w propName initialValue cfg = (Inr h, w')"
      and "accessors_allocated w"
      and "nullish initialValue"
      and "cfg_useExistingValueAsInitial cfg = None \<or> cfg_useExistingValueAsInitial cfg = Some True"
      and "hasOwnProperty w propName"
  shows "handle_value w' h = target_get w propName
       \<and> target_get w' propName = target_get w propName
       \<and> deliveries (snd (handle_subscribe w' h))
           = deliveries w' @ (if nullish (target_get w propName) then []
                              else [(nextSub w', Next (target_get w propName))])"
proof -
  note r = createEchoProp_result [OF assms(1)]
  have seed: "seed_value w propName initialValue cfg = target_get w propName"
    using assms(3,4,5) by (auto simp: seed_value_def)
  have "heap w' (cell h) = fresh_closure propName (target_get w propName) cfg"
    using createEchoProp_heap_new [OF assms(2) r(4), of propName] r(1,2) seed by simp
  then show ?thesis
    using r(1,3)
    by (simp add: handle_value_def target_get_def handle_subscribe_def subscribe_deliveries
                  fresh_replay)
      (simp add: fresh_closure_def)
qed

lemma adopted_null_not_replayed:
  "hasOwnProperty null_target ''existingProp''
   \<and> target_get null_target ''existingProp'' = Null
   \<and> createEchoProp null_target ''existingProp'' Undefined no_config = (Inr existing_handle, null_world)
   \<and> handle_value null_world existing_handle = Null
   \<and> deliveries (snd (handle_subscribe null_world existing_handle)) = []"
proof -
  have "hasOwnProperty null_target ''existingProp''"
    and "target_get null_target ''existingProp'' = Null"
    by (simp_all add: null_target_def hasOwnProperty_def target_get_def)
  moreover have "handle_value null_world existing_handle = Null"
    and "deliveries (snd (handle_subscribe null_world existing_handle)) = []"
    by (simp_all add: world_values existing_handle_def handle_value_def handle_subscribe_def
                      subscribe_def on_subject_def ReplaySubject_subscribe_def trimBuffer_def Let_def)
  ultimately show ?thesis using null_world_eq by simp
qed

section \<open>The claims\<close>

subsection \<open>C1: a rejected write changes nothing\<close>

text \<open>
  C1.  A write to \<open>target[name]\<close> whose value the configured validator rejects
  (\<open>validate(newValue, lastValue)\<close> is falsy) returns normally and is a no-op: the
  closures, and with them \<open>lastValue\<close> and the buffer of the subject, are unchanged, nothing
  is delivered to any subscriber, and the target keeps its properties.  The only trace is
  the warning on the console when \<open>log\<close> is set.
\<close>

theorem rejected_write_is_noop:
  assumes "props w k = Some (EchoAccessor c)"
      and "validate (heap w c) = Some f"
      and "\<not> truthy (f newValue (lastValue (heap w c)))"
  shows "fst (target_set w k newValue) = Inr ()
       \<and> heap (snd (target_set w k newValue)) = heap w
       \<and> deliveries (snd (target_set w k newValue)) = deliveries w
       \<and> props (snd (target_set w k newValue)) = props w
       \<and> target_get (snd (target_set w k newValue)) k = target_get w k
       \<and> snd (target_set w k newValue) =
           (if log (heap w c) then w\<lparr>console := console w @ [warning (propertyName (heap w c))]\<rparr> else w)"
proof -
  have "rejected (heap w c) newValue"
    using assms(2,3) by (simp add: rejected_def)
  then show ?thesis
    using assms(1) by (simp add: target_set_accessor setter_rejected target_get_def)
qed

theorem rejected_write_is_noop_witness:
  "props five_watched ''value'' = Some (EchoAccessor 0)
   \<and> validate (heap five_watched 0) = Some at_least_five
   \<and> \<not> truthy (at_least_five (JNum 2) (lastValue (heap five_watched 0)))
   \<and> observers (subject (heap five_watched 0)) = [0]
   \<and> fst (target_set five_watched ''value'' (JNum 2)) = Inr ()
   \<and> heap (snd (target_set five_watched ''value'' (JNum 2))) = heap five_watched
   \<and> deliveries (snd (target_set five_watched ''value'' (JNum 2))) = [(0, Next (JNum 5))]
   \<and> target_get (snd (target_set five_watched ''value'' (JNum 2))) ''value'' = JNum 5"
proof -
  have h1: "props five_watched ''value'' = Some (EchoAccessor 0)"
    by (simp add: five_watched_eq)
  have h2: "validate (heap five_watched 0) = Some at_least_five"
    by (simp add: five_watched_eq)
  have h3: "\<not> truthy (at_least_five (JNum 2) (lastValue (heap five_watched 0)))"
    by (simp add: five_watched_eq at_least_five_def)
  have h4: "deliveries five_watched = [(0, Next (JNum 5))]"
           "target_get five_watched ''value'' = JNum 5"
           "observers (subject (heap five_watched 0)) = [0]"
    by (simp_all add: five_watched_eq target_get_def)
  note t = rejected_write_is_noop [OF h1 h2 h3]
  have c1: "deliveries (snd (target_set five_watched ''value'' (JNum 2))) = [(0, Next (JNum 5))]"
    using t h4(1) by metis
  have c2: "target_get (snd (target_set five_watched ''value'' (JNum 2))) ''value'' = JNum 5"
    using t h4(2) by metis
  from t h1 h2 h3 h4(3) c1 c2 show ?thesis by blast
qed

subsection \<open>C2: an accepted write\<close>




subsection \<open>C3: what a late subscriber is replayed\<close>

text \<open>
  C3, at replay count 0.  \<open>createEchoProp({}, 'value', 5, {replayCount: 0})\<close>, by src/index.js
  and by src/unnamed/part_002 alike, passes 0 to \<open>new ReplaySubject\<close>, which keeps one value
  all the same: the buffer holds 5, and the first subscriber is handed 5 at once, where C3
  has it receive nothing until the next write.
\<close>

theorem replay_count_zero_replays:
  "cfg_replayCount zero_config = Some 0
   \<and> createEchoProp_index empty_world ''value'' (JNum 5) zero_config = (Inr value_handle, zero_world)
   \<and> createEchoProp empty_world ''value'' (JNum 5) zero_config = (Inr value_handle, zero_world)
   \<and> bufferSize (subject (heap zero_world 0)) = 1
   \<and> buffer (subject (heap zero_world 0)) = [JNum 5]
   \<and> deliveries zero_world = []
   \<and> deliveries (snd (handle_subscribe zero_world value_handle)) = [(0, Next (JNum 5))]"
proof -
  have a: "cfg_replayCount zero_config = Some 0"
    by (simp add: zero_config_def)
  have b: "bufferSize (subject (heap zero_world 0)) = 1"
          "buffer (subject (heap zero_world 0)) = [JNum 5]"
          "deliveries zero_world = []"
          "deliveries (snd (handle_subscribe zero_world value_handle)) = [(0, Next (JNum 5))]"
    by (simp_all add: world_values value_handle_def handle_subscribe_def subscribe_def
                      on_subject_def ReplaySubject_subscribe_def trimBuffer_def Let_def)
  show ?thesis
    by (intro conjI a b zero_index_eq zero_world_eq)
qed

subsection \<open>C4: adopting the existing value\<close>

text \<open>
  C4, on the target \<open>{existingProp: 42}\<close> of src/test.js.  The call
  \<open>createEchoProp(target, 'existingProp', null)\<close> by src/index.js adopts nothing:
  \<open>target.existingProp\<close> and \<open>handle.value\<close> read \<open>null\<close> afterwards, and a subscriber is
  replayed nothing.  The same call by src/unnamed/part_002 adopts 42 and replays it.
\<close>

theorem existing_value_not_adopted:
  "hasOwnProperty answer_target ''existingProp''
   \<and> target_get answer_target ''existingProp'' = JNum 42
   \<and> createEchoProp_index answer_target ''existingProp'' Null no_config
       = (Inr existing_handle, unadopted_world)
   \<and> target_get unadopted_world ''existingProp'' = Null
   \<and> handle_value unadopted_world existing_handle = Null
   \<and> deliveries (snd (handle_subscribe unadopted_world existing_handle)) = []
   \<and> createEchoProp answer_target ''existingProp'' Null no_config
       = (Inr existing_handle, answer_world)
   \<and> target_get answer_world ''existingProp'' = JNum 42
   \<and> handle_value answer_world existing_handle = JNum 42
   \<and> deliveries (snd (handle_subscribe answer_world existing_handle)) = [(0, Next (JNum 42))]"
proof -
  have a: "hasOwnProperty answer_target ''existingProp''"
          "target_get answer_target ''existingProp'' = JNum 42"
    by (simp_all add: answer_target_def hasOwnProperty_def target_get_def)
  have b: "target_get unadopted_world ''existingProp'' = Null"
          "handle_value unadopted_world existing_handle = Null"
          "deliveries (snd (handle_subscribe unadopted_world existing_handle)) = []"
    by (simp_all add: unadopted_value existing_handle_def target_get_def handle_value_def
                      handle_subscribe_def subscribe_def on_subject_def ReplaySubject_subscribe_def
                      trimBuffer_def Let_def)
  have c: "target_get answer_world ''existingProp'' = JNum 42"
          "handle_value answer_world existing_handle = JNum 42"
          "deliveries (snd (handle_subscribe answer_world existing_handle)) = [(0, Next (JNum 42))]"
    by (simp_all add: world_values existing_handle_def target_get_def handle_value_def
                      handle_subscribe_def subscribe_def on_subject_def ReplaySubject_subscribe_def
                      trimBuffer_def Let_def)
  show ?thesis
    by (intro conjI a b c unadopted_world_eq answer_world_eq)
qed

subsection \<open>C5: the initial value bypasses the validator\<close>

text \<open>
  C5.  If the initial value, explicit or adopted, is not null or undefined, then after
  createEchoProp has returned a handle it is \<open>lastValue\<close> (what \<open>handle.value\<close> and
  \<open>target[name]\<close> read) and the only entry of the buffer, whatever validator is
  configured.  The initial value is the explicit one when that is not null or undefined,
  and the value of the existing field when it is adopted.
\<close>

theorem initial_value_bypasses_validate:
  assumes "createEchoProp w propName initialValue cfg = (Inr h, w')"
      and "accessors_allocated w"
      and "\<not> nullish (seed_value w propName initialValue cfg)"
  shows "lastValue (heap w' (cell h)) = seed_value w propName initialValue cfg
       \<and> buffer (subject (heap w' (cell h))) = [seed_value w propName initialValue cfg]
       \<and> handle_value w' h = seed_value w propName initialValue cfg
       \<and> target_get w' propName = seed_value w propName initialValue cfg
       \<and> (\<not> nullish initialValue \<longrightarrow> seed_value w propName initialValue cfg = initialValue)
       \<and> (nullish initialValue \<and> cfg_useExistingValueAsInitial cfg \<noteq> Some False
            \<and> hasOwnProperty w propName \<longrightarrow>
            seed_value w propName initialValue cfg = target_get w propName)"
proof -
  note r = createEchoProp_result [OF assms(1)]
  have "heap w' (cell h) = fresh_closure propName (seed_value w propName initialValue cfg) cfg"
    using createEchoProp_heap_new [OF assms(2) r(4), of propName] r(1,2) by simp
  then show ?thesis
    using assms(3) r(1,3)
    by (auto simp: fresh_closure_def handle_value_def target_get_def seed_value_def
             split: option.splits)
qed

theorem initial_value_bypasses_validate_witness:
  "createEchoProp empty_world ''value'' (JNum 5) strict_config = (Inr value_handle, strict_world)
   \<and> accessors_allocated empty_world
   \<and> cfg_validate strict_config = Some reject_all
   \<and> \<not> truthy (reject_all (JNum 5) Undefined)
   \<and> seed_value empty_world ''value'' (JNum 5) strict_config = JNum 5
   \<and> lastValue (heap strict_world (cell value_handle)) = JNum 5
   \<and> buffer (subject (heap strict_world (cell value_handle))) = [JNum 5]
   \<and> handle_value strict_world value_handle = JNum 5
   \<and> target_get strict_world ''value'' = JNum 5"
proof -
  have h1: "createEchoProp empty_world ''value'' (JNum 5) strict_config
            = (Inr value_handle, strict_world)"
    by (rule strict_world_eq)
  have h2: "accessors_allocated empty_world"
    by (rule accessors_allocated_empty)
  have e: "seed_value empty_world ''value'' (JNum 5) strict_config = JNum 5"
    by (simp add: seed_value_def)
  have h3: "\<not> nullish (seed_value empty_world ''value'' (JNum 5) strict_config)"
    by (simp add: e)
  have v: "cfg_validate strict_config = Some reject_all" "\<not> truthy (reject_all (JNum 5) Undefined)"
    by (simp_all add: strict_config_def reject_all_def)
  from initial_value_bypasses_validate [OF h1 h2 h3] h1 h2 v e
  show ?thesis by simp
qed

subsection \<open>C6: the field \<open>name$\<close>\<close>

text \<open>
  C6, as amended.  When \<open>addAsObservableToTarget\<close> is absent or true and createEchoProp
  returns a handle, on a target whose field \<open>name + "$"\<close> is not an accessor of another
  property, the field \<open>name + "$"\<close> is a writable data property that holds the observable
  of the new subject; a later assignment to it succeeds and replaces its value.
\<close>

theorem observable_field_is_writable:
  assumes "createEchoProp w propName initialValue cfg = (Inr h, w')"
      and "cfg_addAsObservableToTarget cfg = None \<or> cfg_addAsObservableToTarget cfg = Some True"
      and "\<forall>c. props w (propName @ ''$'') \<noteq> Some (EchoAccessor c)"
  shows "\<exists>configurable.
           props w' (propName @ ''$'') = Some (DataProperty (JObservable (cell h)) True configurable)
         \<and> target_get w' (propName @ ''$'') = JObservable (cell h)
         \<and> (\<forall>x. target_set w' (propName @ ''$'') x
                   = (Inr (), w'\<lparr>props := (props w')(propName @ ''$'' \<mapsto> DataProperty x True configurable)\<rparr>)
                \<and> target_get (snd (target_set w' (propName @ ''$'') x)) (propName @ ''$'') = x)"
proof -
  note f = createEchoProp_fst [OF assms(1)]
  have addAs: "(case cfg_addAsObservableToTarget cfg of None \<Rightarrow> True | Some b \<Rightarrow> b)"
    using assms(2) by auto
  have same: "props (defined w propName initialValue cfg) (propName @ ''$'') = props w (propName @ ''$'')"
    by (simp add: defined_props_other)
  have ok: "fst (target_set (defined w propName initialValue cfg) (propName @ ''$'')
                  (JObservable (nextCell w))) = Inr ()"
    using assms(1) addAs unfolding createEchoProp_unfold defined_def
    by (auto split: prod.splits sum.splits if_splits)
  show ?thesis
  proof (cases "props w (propName @ ''$'')")
    case None
    have "extensible w"
      using ok same None by (auto simp: target_set_def split: if_splits)
    then show ?thesis
      using f addAs same None
      by (auto simp: target_set_def target_get_def)
  next
    case (Some pr)
    then obtain old wr cf where pr: "pr = DataProperty old wr cf"
      using assms(3) by (cases pr) auto
    have "wr" using ok same Some pr by (auto simp: target_set_def split: if_splits)
    then show ?thesis
      using f addAs same Some pr
      by (auto simp: target_set_def target_get_def)
  qed
qed

theorem observable_field_is_writable_witness:
  "createEchoProp empty_world ''value'' (JNum 1) no_config = (Inr value_handle, plain_world)
   \<and> cfg_addAsObservableToTarget no_config = None
   \<and> props empty_world (''value'' @ ''$'') = None
   \<and> target_get plain_world (''value'' @ ''$'') = JObservable (cell value_handle)
   \<and> target_get (snd (target_set plain_world (''value'' @ ''$'') (JStr ''x''))) (''value'' @ ''$'')
       = JStr ''x''"
proof -
  have h1: "createEchoProp empty_world ''value'' (JNum 1) no_config = (Inr value_handle, plain_world)"
    by (rule plain_create_eq)
  have h2: "cfg_addAsObservableToTarget no_config = None"
    by (simp add: no_config_def)
  have h3: "props empty_world (''value'' @ ''$'') = None"
    by (simp add: empty_world_def)
  have h3': "\<forall>c. props empty_world (''value'' @ ''$'') \<noteq> Some (EchoAccessor c)"
    using h3 by simp
  from observable_field_is_writable [OF h1 disjI1 [OF h2] h3']
  have "target_get plain_world (''value'' @ ''$'') = JObservable (cell value_handle)"
   and "target_get (snd (target_set plain_world (''value'' @ ''$'') (JStr ''x''))) (''value'' @ ''$'')
        = JStr ''x''"
    by blast+
  with h1 h2 h3 show ?thesis by blast
qed

text \<open>
  C6 as stated fails: the field is written by a plain assignment, so it is not read-only
  and the next assignment replaces the observable.
\<close>

theorem observable_field_replaced_counterexample:
  "cfg_addAsObservableToTarget no_config = None
   \<and> createEchoProp empty_world ''value'' (JNum 1) no_config = (Inr value_handle, plain_world)
   \<and> target_get plain_world ''value$'' = JObservable 0
   \<and> fst (target_set plain_world ''value$'' (JNum 7)) = Inr ()
   \<and> target_get (snd (target_set plain_world ''value$'' (JNum 7))) ''value$'' = JNum 7"
  by (simp add: plain_create_eq)
     (simp add: no_config_def plain_world_eq target_get_def target_set_def)

subsection \<open>C7: nothing is notified after \<open>complete\<close>\<close>

text \<open>
  C7.  \<open>complete()\<close> leaves the properties of the target as they are and hands a
  completion signal to every observer registered at that moment.  From then on, whatever
  the caller does, a write through the accessor of the property delivers nothing to
  anyone, and a subscriber that registers later is replayed the values that were in the
  buffer when the subject was completed, followed by the completion signal: no value
  written after the completion ever reaches a subscriber.
\<close>

theorem no_notification_after_complete:
  assumes "cell h < nextCell w"
  shows "props (handle_complete w h) = props w
       \<and> deliveries (handle_complete w h)
           = deliveries w @ (if isStopped (subject (heap w (cell h))) then []
                             else map (\<lambda>ob. (ob, Complete)) (observers (subject (heap w (cell h)))))
       \<and> (\<forall>as k v. props (run as (handle_complete w h)) k = Some (EchoAccessor (cell h)) \<longrightarrow>
             deliveries (snd (target_set (run as (handle_complete w h)) k v))
               = deliveries (run as (handle_complete w h)))
       \<and> (\<forall>as. deliveries (snd (handle_subscribe (run as (handle_complete w h)) h))
               = deliveries (run as (handle_complete w h))
                 @ map (\<lambda>v. (nextSub (run as (handle_complete w h)), Next v))
                       (lastn (bufferSize (subject (heap w (cell h))))
                              (buffer (subject (heap w (cell h)))))
                 @ [(nextSub (run as (handle_complete w h)), Complete)])"
proof (intro conjI allI impI)
  show "props (handle_complete w h) = props w" by simp
next
  show "deliveries (handle_complete w h)
           = deliveries w @ (if isStopped (subject (heap w (cell h))) then []
                             else map (\<lambda>ob. (ob, Complete)) (observers (subject (heap w (cell h)))))"
    by (simp add: complete_deliveries Subject_complete_def)
next
  fix as k v
  assume k: "props (run as (handle_complete w h)) k = Some (EchoAccessor (cell h))"
  have "isStopped (subject (heap (run as (handle_complete w h)) (cell h)))"
    using complete_run_stopped [OF assms, of as] by (simp add: stopped_with_def)
  then have "write_deliveries (heap (run as (handle_complete w h)) (cell h)) v = []"
    by (rule stopped_write_silent)
  then show "deliveries (snd (target_set (run as (handle_complete w h)) k v))
               = deliveries (run as (handle_complete w h))"
    using k by (simp add: target_set_deliveries)
next
  fix as
  have "stopped_with (bufferSize (subject (heap w (cell h))))
           (lastn (bufferSize (subject (heap w (cell h)))) (buffer (subject (heap w (cell h)))))
           (heap (run as (handle_complete w h)) (cell h))"
    using assms by (rule complete_run_stopped)
  then show "deliveries (snd (handle_subscribe (run as (handle_complete w h)) h))
               = deliveries (run as (handle_complete w h))
                 @ map (\<lambda>v. (nextSub (run as (handle_complete w h)), Next v))
                       (lastn (bufferSize (subject (heap w (cell h))))
                              (buffer (subject (heap w (cell h)))))
                 @ [(nextSub (run as (handle_complete w h)), Complete)]"
    by (simp add: handle_subscribe_def subscribe_deliveries subscribe_replay stopped_with_def)
qed

theorem no_notification_after_complete_witness:
  "cell value_handle < nextCell watched_world
   \<and> props (handle_complete watched_world value_handle) = props watched_world
   \<and> deliveries (handle_complete watched_world value_handle)
       = [(0, Next (JNum 1)), (0, Complete)]
   \<and> props (run [] (handle_complete watched_world value_handle)) ''value''
       = Some (EchoAccessor (cell value_handle))
   \<and> deliveries (snd (target_set (run [] (handle_complete watched_world value_handle))
                                   ''value'' (JNum 2)))
       = [(0, Next (JNum 1)), (0, Complete)]
   \<and> deliveries (snd (handle_subscribe
                        (run [Assign ''value'' (JNum 2)] (handle_complete watched_world value_handle))
                        value_handle))
       = deliveries (run [Assign ''value'' (JNum 2)] (handle_complete watched_world value_handle))
         @ [(1, Next (JNum 1)), (1, Complete)]"
proof -
  have h1: "cell value_handle < nextCell watched_world"
    by (simp add: watched_world_eq value_handle_def)
  have h2: "props (run [] (handle_complete watched_world value_handle)) ''value''
            = Some (EchoAccessor (cell value_handle))"
    by (simp add: run_def watched_world_eq value_handle_def)
  have h3: "deliveries watched_world = [(0, Next (JNum 1))]"
           "isStopped (subject (heap watched_world (cell value_handle))) = False"
           "observers (subject (heap watched_world (cell value_handle))) = [0]"
           "buffer (subject (heap watched_world (cell value_handle))) = [JNum 1]"
           "bufferSize (subject (heap watched_world (cell value_handle))) = 1"
           "nextSub (run [Assign ''value'' (JNum 2)] (handle_complete watched_world value_handle)) = 1"
    by (simp_all add: watched_world_eq value_handle_def run_def)
  note t = no_notification_after_complete [OF h1]
  have c1: "props (handle_complete watched_world value_handle) = props watched_world"
    using t by blast
  have c2: "deliveries (handle_complete watched_world value_handle)
       = [(0, Next (JNum 1)), (0, Complete)]"
    using t h3 by simp
  have c3: "deliveries (snd (target_set (run [] (handle_complete watched_world value_handle))
                                   ''value'' (JNum 2)))
       = deliveries (run [] (handle_complete watched_world value_handle))"
    using t h2 by blast
  have c4: "deliveries (snd (handle_subscribe
                        (run [Assign ''value'' (JNum 2)] (handle_complete watched_world value_handle))
                        value_handle))
       = deliveries (run [Assign ''value'' (JNum 2)] (handle_complete watched_world value_handle))
         @ [(1, Next (JNum 1)), (1, Complete)]"
    using t h3 by (simp add: lastn_def)
  from h1 h2 c1 c2 c3 c4 show ?thesis by (simp add: run_def)
qed

subsection \<open>C8: createEchoProps calls createEchoProp for each entry, in order\<close>

text \<open>
  C8.  createEchoProps returns what invoking createEchoProp for each entry of the property
  book, in order and with the same options, returns: the same handles in the same order,
  the same final state, and the same failure if an invocation fails.
\<close>

theorem createEchoProps_in_order:
  "createEchoProps w mapping options = spec_createReactiveProperties w mapping options
   \<and> (\<forall>hs w'. createEchoProps w mapping options = (Inr hs, w') \<longrightarrow>
          map name hs = map fst mapping
          \<and> map cell hs = [nextCell w ..< nextCell w + length mapping])"
proof (intro conjI allI impI)
  show "createEchoProps w mapping options = spec_createReactiveProperties w mapping options"
    unfolding spec_createReactiveProperties_def foldl_spec_invoke [of options "[]" w mapping]
    by (simp split: prod.splits sum.splits)
next
  fix hs w'
  assume "createEchoProps w mapping options = (Inr hs, w')"
  from createEchoProps_cells [OF this]
  show "map name hs = map fst mapping"
    and "map cell hs = [nextCell w ..< nextCell w + length mapping]"
    by simp_all
qed

theorem createEchoProps_in_order_witness:
  "createEchoProps empty_world game_book no_config = (Inr [score_handle, health_handle], game_world)
   \<and> spec_createReactiveProperties empty_world game_book no_config
       = (Inr [score_handle, health_handle], game_world)
   \<and> map name [score_handle, health_handle] = map fst game_book
   \<and> map cell [score_handle, health_handle] = [0, 1]"
proof -
  note t = createEchoProps_in_order [of empty_world game_book no_config]
  have c: "createEchoProps empty_world game_book no_config
           = (Inr [score_handle, health_handle], game_world)"
    by (rule game_world_eq)
  from t c have s: "spec_createReactiveProperties empty_world game_book no_config
                    = (Inr [score_handle, health_handle], game_world)"
    by simp
  from t c have n: "map name [score_handle, health_handle] = map fst game_book" by blast
  have "map cell [score_handle, health_handle] = [0, 1]"
    by (simp add: score_handle_def health_handle_def)
  with c s n show ?thesis by simp
qed

subsection \<open>C9: properties do not interfere\<close>



subsection \<open>C10: a write after \<open>complete\<close> still changes the value\<close>

text \<open>
  C10.  After \<open>complete()\<close>, and whatever the caller has done since, an assignment to
  \<open>target[name]\<close> that passes validation returns normally and updates \<open>lastValue\<close>, so
  that \<open>target[name]\<close> and \<open>handle.value\<close> read the new value, and nothing is delivered.
\<close>

theorem write_after_complete:
  assumes "cell h < nextCell w0"
      and "w = run as (handle_complete w0 h)"
      and "props w k = Some (EchoAccessor (cell h))"
      and "validate (heap w (cell h)) = None
           \<or> (\<exists>f. validate (heap w (cell h)) = Some f
                   \<and> truthy (f newValue (lastValue (heap w (cell h)))))"
  shows "fst (target_set w k newValue) = Inr ()
       \<and> target_get (snd (target_set w k newValue)) k = newValue
       \<and> handle_value (snd (target_set w k newValue)) h = newValue
       \<and> deliveries (snd (target_set w k newValue)) = deliveries w"
proof -
  have acc: "\<not> rejected (heap w (cell h)) newValue"
    using assms(4) by (simp add: rejected_iff)
  have "isStopped (subject (heap w (cell h)))"
    using complete_run_stopped [OF assms(1), of as] assms(2) by (simp add: stopped_with_def)
  then have quiet: "write_deliveries (heap w (cell h)) newValue = []"
    by (rule stopped_write_silent)
  have w': "target_set w k newValue = (Inr (), setter w (cell h) newValue)"
    using assms(3) by (rule target_set_accessor)
  show ?thesis
    using assms(3) acc quiet
    by (simp add: w' target_get_def handle_value_def setter_heap setter_deliveries
                  write_cell_accepted)
qed

theorem write_after_complete_witness:
  "cell value_handle < nextCell watched_world
   \<and> completed_world = run [] (handle_complete watched_world value_handle)
   \<and> props completed_world ''value'' = Some (EchoAccessor (cell value_handle))
   \<and> validate (heap completed_world (cell value_handle)) = None
   \<and> target_get (snd (target_set completed_world ''value'' (JNum 2))) ''value'' = JNum 2
   \<and> handle_value (snd (target_set completed_world ''value'' (JNum 2))) value_handle = JNum 2
   \<and> deliveries (snd (target_set completed_world ''value'' (JNum 2)))
       = [(0, Next (JNum 1)), (0, Complete)]"
proof -
  have h1: "cell value_handle < nextCell watched_world"
    by (simp add: watched_world_eq value_handle_def)
  have h2: "completed_world = run [] (handle_complete watched_world value_handle)"
    by (simp add: run_def completed_world_def)
  have h3: "props completed_world ''value'' = Some (EchoAccessor (cell value_handle))"
    by (simp add: completed_world_eq value_handle_def)
  have h4: "validate (heap completed_world (cell value_handle)) = None"
    by (simp add: completed_world_eq value_handle_def)
  have h5: "deliveries completed_world = [(0, Next (JNum 1)), (0, Complete)]"
    by (simp add: completed_world_eq)
  from write_after_complete [OF h1 h2 h3 disjI1 [OF h4], of "JNum 2"] h1 h2 h3 h4 h5
  show ?thesis by simp
qed

end
